theory Spec2Isabelle
  imports Complex_Main "HOL-Library.Log_Nat"
begin

section \<open>Order transaction and notification subsystem\<close>

text \<open>
  A shallow embedding of the repository layer (\<^verbatim>\<open>db/repository\<close>), the order service
  (\<^verbatim>\<open>services/order-service.ts\<close>) and the notification service
  (\<^verbatim>\<open>services/notification-service\<close>) of the example project.

  Every \<^verbatim>\<open>async\<close> function of the source becomes a function from the state of the
  world to an outcome and the new state of the world. A rejected promise (a thrown
  \<^verbatim>\<open>Error\<close>) is the outcome \<open>Inl e\<close>, a resolved one is \<open>Inr v\<close>. One call runs from
  start to end: the interleaving of several concurrent requests, and the time a call
  waits for a pooled connection, are outside the model.

  Prices, quantities and amounts are JavaScript numbers, that is IEEE 754 doubles, with
  the rounding of their sum and product; identifiers are whole numbers (\<open>int\<close>).
\<close>

subsection \<open>JavaScript numbers\<close>

text \<open>
  A number is a finite double, given by the rational it denotes, an infinity or
  \<^verbatim>\<open>NaN\<close>. The two zeros are not told apart (they are equal in JavaScript, and no
  operation of the order service divides). The sum and the product round their exact
  result to the nearest double, \<open>fl\<close>; the properties below hold whatever rationals
  the operands denote, so in particular when these are doubles.
\<close>

datatype number = Fin rat | PosInf | NegInf | NaN

text \<open>\<open>\<lfloor>log\<^sub>2 a\<rfloor>\<close> for a positive rational \<open>a\<close>.\<close>

definition ilog2 :: "rat \<Rightarrow> int" where
  "ilog2 a = (if 1 \<le> a then bitlen \<lfloor>a\<rfloor> - 1 else - bitlen (\<lceil>1 / a\<rceil> - 1))"

text \<open>The nearest whole number, a tie going to the even one.\<close>

definition round_half_even :: "rat \<Rightarrow> int" where
  "round_half_even k =
     (let f = \<lfloor>k\<rfloor>; r = k - of_int f
      in if r < 1 / 2 then f else if 1 / 2 < r then f + 1 else if even f then f else f + 1)"

definition overflow :: rat where
  "overflow = 2 ^ 1024"

text \<open>
  The double nearest to a rational (round to nearest, ties to even): 53 significant
  bits, the spacing of the subnormal numbers below \<open>2 ^ - 1022\<close>, an infinity from
  \<open>2 ^ 1024\<close> on.
\<close>

definition fl :: "rat \<Rightarrow> number" where
  "fl x =
     (if x = 0 then Fin 0
      else let u = max (ilog2 \<bar>x\<bar> - 52) (- 1074);
               y = of_int (round_half_even (x / power_int 2 u)) * power_int 2 u
           in if overflow \<le> y then PosInf else if y \<le> - overflow then NegInf else Fin y)"

text \<open>\<^verbatim>\<open>a + b\<close> on numbers.\<close>

fun js_add :: "number \<Rightarrow> number \<Rightarrow> number" where
  "js_add (Fin a) (Fin b) = fl (a + b)"
| "js_add NaN _ = NaN"
| "js_add _ NaN = NaN"
| "js_add PosInf NegInf = NaN"
| "js_add NegInf PosInf = NaN"
| "js_add PosInf _ = PosInf"
| "js_add _ PosInf = PosInf"
| "js_add NegInf _ = NegInf"
| "js_add _ NegInf = NegInf"

text \<open>An infinity (\<open>positive\<close> tells which) times a finite number.\<close>

definition inf_times :: "bool \<Rightarrow> rat \<Rightarrow> number" where
  "inf_times positive a =
     (if a = 0 then NaN else if (0 < a) = positive then PosInf else NegInf)"

text \<open>\<^verbatim>\<open>a * b\<close> on numbers.\<close>

fun js_mul :: "number \<Rightarrow> number \<Rightarrow> number" where
  "js_mul (Fin a) (Fin b) = fl (a * b)"
| "js_mul NaN _ = NaN"
| "js_mul _ NaN = NaN"
| "js_mul PosInf (Fin a) = inf_times True a"
| "js_mul NegInf (Fin a) = inf_times False a"
| "js_mul (Fin a) PosInf = inf_times True a"
| "js_mul (Fin a) NegInf = inf_times False a"
| "js_mul PosInf PosInf = PosInf"
| "js_mul NegInf NegInf = PosInf"
| "js_mul PosInf NegInf = NegInf"
| "js_mul NegInf PosInf = NegInf"

subsection \<open>Data model\<close>

text \<open>
  \<^verbatim>\<open>interface Order\<close>. The field \<^verbatim>\<open>id\<close> is named \<open>ord_id\<close> (\<open>id\<close> is the identity
  function of HOL). \<open>paid_at\<close> is the column that \<^verbatim>\<open>markOrderPaid\<close> writes; the
  interface does not declare it, the row carries it. Timestamps are readings of the
  world's clock.
\<close>

record Order =
  ord_id :: int
  user_id :: int
  status :: string
  total_amount :: number
  created_at :: nat
  updated_at :: nat
  paid_at :: "nat option"

text \<open>
  \<^verbatim>\<open>interface OrderItem\<close>; \<open>item_quantity\<close> and \<open>item_price\<close> are \<^verbatim>\<open>quantity\<close> and
  \<^verbatim>\<open>price\<close>, renamed because the input items below use the same field names.
\<close>

record OrderItem =
  item_id :: int
  order_id :: int
  product_id :: int
  item_quantity :: number
  item_price :: number

text \<open>The element type of \<^verbatim>\<open>CreateOrderInput.items\<close>, and \<^verbatim>\<open>CreateOrderInput\<close>.\<close>

record ItemInput =
  productId :: int
  quantity :: number
  price :: number

record CreateOrderInput =
  userId :: int
  items :: "ItemInput list"

text \<open>\<^verbatim>\<open>interface EmailNotification\<close>; \<^verbatim>\<open>to\<close> is named \<open>to_addr\<close>.\<close>

record EmailNotification =
  to_addr :: string
  subject :: string
  body :: string
  template :: "string option"

text \<open>
  A thrown value. \<open>Error m\<close> is \<^verbatim>\<open>new Error(m)\<close>, also the failures reported by the
  database driver and by the delivery channel; \<open>TypeError m\<close> is what reading a
  property of \<^verbatim>\<open>undefined\<close> throws.
\<close>

datatype error = Error string | TypeError string

subsection \<open>Statements, events and the world\<close>

text \<open>
  The SQL statements the order service sends, with their parameters:
  \<^item> \<open>Begin\<close>, \<open>Commit\<close>, \<open>Rollback\<close>: \<^verbatim>\<open>BEGIN\<close>, \<^verbatim>\<open>COMMIT\<close>, \<^verbatim>\<open>ROLLBACK\<close>;
  \<^item> \<open>InsertOrder u s t\<close>:
    \<^verbatim>\<open>INSERT INTO orders (user_id, status, total_amount) VALUES ($1, $2, $3) RETURNING *\<close>;
  \<^item> \<open>InsertOrderItem o p q c\<close>:
    \<^verbatim>\<open>INSERT INTO order_items (order_id, product_id, quantity, price) VALUES ($1, $2, $3, $4)\<close>;
  \<^item> \<open>SelectOrder i\<close>: \<^verbatim>\<open>SELECT * FROM orders WHERE id = $1\<close>;
  \<^item> \<open>UpdateStatus s i\<close>:
    \<^verbatim>\<open>UPDATE orders SET status = $1, updated_at = NOW() WHERE id = $2 RETURNING *\<close>;
  \<^item> \<open>UpdatePaid s i\<close>:
    \<^verbatim>\<open>UPDATE orders SET status = $1, paid_at = NOW(), updated_at = NOW() WHERE id = $2 RETURNING *\<close>;
  \<^item> \<open>DeleteOrderItems i\<close>: \<^verbatim>\<open>DELETE FROM order_items WHERE order_id = $1\<close>;
  \<^item> \<open>DeleteOrder i\<close>: \<^verbatim>\<open>DELETE FROM orders WHERE id = $1\<close>.
\<close>

datatype stmt =
    Begin
  | Commit
  | Rollback
  | InsertOrder int string number
  | InsertOrderItem int int number number
  | SelectOrder int
  | UpdateStatus string int
  | UpdatePaid string int
  | DeleteOrderItems int
  | DeleteOrder int

text \<open>Values that appear in the structured fields of a log line.\<close>

datatype jsval = Num int | Str string | Err error

text \<open>
  The levels of the logger: \<open>Info\<close> for \<^verbatim>\<open>logger.info\<close>, \<open>Warn\<close> for \<^verbatim>\<open>logger.warn\<close>,
  \<open>Failure\<close> for \<^verbatim>\<open>logger.error\<close> (\<open>Error\<close> names a thrown value).
\<close>

datatype level = Info | Warn | Failure

text \<open>
  What a call leaves behind, in order: a connection taken from the pool or given back,
  a statement sent on a connection, a notification handed over by the delivery channel,
  a line written by the logger.
\<close>

datatype event =
    Acquire
  | Release
  | Stmt stmt
  | Delivered EmailNotification
  | Log level string "(string \<times> jsval) list"

record db =
  orders :: "Order list"
  order_items :: "OrderItem list"

text \<open>
  The world: the rows every connection sees (\<open>committed\<close>), the working copy of the
  transaction open on the pooled client (\<open>txn\<close>; calls run one after the other, so the
  pool hands out the client that was released last), the number of clients checked out
  of the pool, the two id sequences, a clock that ticks once per
  round trip to the database, and the events so far.
\<close>

record world =
  committed :: db
  txn :: "db option"
  in_use :: nat
  order_seq :: int
  item_seq :: int
  clock :: nat
  trace :: "event list"

text \<open>
  What the code cannot control: whether the round trip made at a given tick fails
  (\<open>db_fault\<close>), whether the user directory fails for a user id (\<open>lookup_fault\<close>), and
  whether the delivery channel fails for a notification (\<open>deliver_fault\<close>).
\<close>

record env =
  db_fault :: "nat \<Rightarrow> error option"
  lookup_fault :: "int \<Rightarrow> error option"
  deliver_fault :: "EmailNotification \<Rightarrow> error option"

definition no_faults :: env where
  "no_faults = \<lparr>db_fault = (\<lambda>_. None), lookup_fault = (\<lambda>_. None), deliver_fault = (\<lambda>_. None)\<rparr>"

subsection \<open>Promises: sequencing, try, catch, finally\<close>

type_synonym 'a io = "world \<Rightarrow> (error + 'a) \<times> world"

definition resolve :: "'a \<Rightarrow> 'a io" where
  "resolve x w = (Inr x, w)"

definition reject :: "error \<Rightarrow> 'a io" where
  "reject e w = (Inl e, w)"

text \<open>\<^verbatim>\<open>const x = await m; f(x)\<close>: a rejection of \<open>m\<close> skips \<open>f\<close>.\<close>

definition andThen :: "'a io \<Rightarrow> ('a \<Rightarrow> 'b io) \<Rightarrow> 'b io" where
  "andThen m f w = (case m w of (Inl e, w') \<Rightarrow> (Inl e, w') | (Inr x, w') \<Rightarrow> f x w')"

text \<open>\<^verbatim>\<open>try { m } catch (error) { h(error) }\<close>.\<close>

definition tryCatch :: "'a io \<Rightarrow> (error \<Rightarrow> 'a io) \<Rightarrow> 'a io" where
  "tryCatch m h w = (case m w of (Inl e, w') \<Rightarrow> h e w' | (Inr x, w') \<Rightarrow> (Inr x, w'))"

text \<open>\<^verbatim>\<open>try { m } finally { c }\<close> for a cleanup \<open>c\<close> that does not throw.\<close>

definition tryFinally :: "'a io \<Rightarrow> (world \<Rightarrow> world) \<Rightarrow> 'a io" where
  "tryFinally m c w = (case m w of (r, w') \<Rightarrow> (r, c w'))"

definition emit :: "event \<Rightarrow> world \<Rightarrow> world" where
  "emit ev w = w\<lparr>trace := trace w @ [ev]\<rparr>"

text \<open>
  \<^verbatim>\<open>logger.info\<close>, \<^verbatim>\<open>logger.error\<close>: the logger module is not among the sources; a call
  writes one line and returns.
\<close>

definition logger :: "level \<Rightarrow> string \<Rightarrow> (string \<times> jsval) list \<Rightarrow> unit io" where
  "logger l msg meta w = (Inr (), emit (Log l msg meta) w)"

subsection \<open>Template literals\<close>

fun digits :: "nat \<Rightarrow> string" where
  "digits n =
     (if n < 10 then [''0123456789'' ! n]
      else digits (n div 10) @ [''0123456789'' ! (n mod 10)])"

declare digits.simps [simp del]

text \<open>\<^verbatim>\<open>${n}\<close> for a whole number \<open>n\<close>.\<close>

definition toString :: "int \<Rightarrow> string" where
  "toString n = (if n < 0 then CHR ''-'' # digits (nat (- n)) else digits (nat n))"

subsection \<open>The database client and the pool\<close>

record QueryResult =
  rows :: "Order list"
  rowCount :: nat

definition cur_db :: "world \<Rightarrow> db" where
  "cur_db w = (case txn w of Some d \<Rightarrow> d | None \<Rightarrow> committed w)"

definition put_db :: "db \<Rightarrow> world \<Rightarrow> world" where
  "put_db d w = (case txn w of Some _ \<Rightarrow> w\<lparr>txn := Some d\<rparr> | None \<Rightarrow> w\<lparr>committed := d\<rparr>)"

definition touch :: "string \<Rightarrow> nat \<Rightarrow> Order \<Rightarrow> Order" where
  "touch s t ord = ord\<lparr>status := s, updated_at := t\<rparr>"

definition touch_paid :: "string \<Rightarrow> nat \<Rightarrow> Order \<Rightarrow> Order" where
  "touch_paid s t ord = ord\<lparr>status := s, updated_at := t, paid_at := Some t\<rparr>"

text \<open>
  What the database does with a statement that it accepts. Inside a transaction the
  statement works on the transaction's copy, which \<open>Commit\<close> publishes and \<open>Rollback\<close>
  drops; outside, it works on the committed rows at once. The sequences are not
  restored by a rollback.
\<close>

fun exec_stmt :: "stmt \<Rightarrow> world \<Rightarrow> QueryResult \<times> world" where
  "exec_stmt Begin w = (\<lparr>rows = [], rowCount = 0\<rparr>, w\<lparr>txn := Some (cur_db w)\<rparr>)"
| "exec_stmt Commit w = (\<lparr>rows = [], rowCount = 0\<rparr>, w\<lparr>committed := cur_db w, txn := None\<rparr>)"
| "exec_stmt Rollback w = (\<lparr>rows = [], rowCount = 0\<rparr>, w\<lparr>txn := None\<rparr>)"
| "exec_stmt (InsertOrder u s t) w =
     (let row = \<lparr>ord_id = order_seq w, user_id = u, status = s, total_amount = t,
                   created_at = clock w, updated_at = clock w, paid_at = None\<rparr>;
          d = cur_db w
      in (\<lparr>rows = [row], rowCount = 1\<rparr>,
          (put_db (d\<lparr>orders := orders d @ [row]\<rparr>) w)\<lparr>order_seq := order_seq w + 1\<rparr>))"
| "exec_stmt (InsertOrderItem ordr p q c) w =
     (let row = \<lparr>item_id = item_seq w, order_id = ordr, product_id = p,
                   item_quantity = q, item_price = c\<rparr>;
          d = cur_db w
      in (\<lparr>rows = [], rowCount = 1\<rparr>,
          (put_db (d\<lparr>order_items := order_items d @ [row]\<rparr>) w)\<lparr>item_seq := item_seq w + 1\<rparr>))"
| "exec_stmt (SelectOrder i) w =
     (let found = filter (\<lambda>r. ord_id r = i) (orders (cur_db w))
      in (\<lparr>rows = found, rowCount = length found\<rparr>, w))"
| "exec_stmt (UpdateStatus s i) w =
     (let d = cur_db w;
          changed = map (touch s (clock w)) (filter (\<lambda>r. ord_id r = i) (orders d))
      in (\<lparr>rows = changed, rowCount = length changed\<rparr>,
          put_db (d\<lparr>orders := map (\<lambda>r. if ord_id r = i then touch s (clock w) r else r) (orders d)\<rparr>) w))"
| "exec_stmt (UpdatePaid s i) w =
     (let d = cur_db w;
          changed = map (touch_paid s (clock w)) (filter (\<lambda>r. ord_id r = i) (orders d))
      in (\<lparr>rows = changed, rowCount = length changed\<rparr>,
          put_db (d\<lparr>orders := map (\<lambda>r. if ord_id r = i then touch_paid s (clock w) r else r) (orders d)\<rparr>) w))"
| "exec_stmt (DeleteOrderItems i) w =
     (let d = cur_db w
      in (\<lparr>rows = [], rowCount = length (filter (\<lambda>r. order_id r = i) (order_items d))\<rparr>,
          put_db (d\<lparr>order_items := filter (\<lambda>r. order_id r \<noteq> i) (order_items d)\<rparr>) w))"
| "exec_stmt (DeleteOrder i) w =
     (let d = cur_db w
      in (\<lparr>rows = [], rowCount = length (filter (\<lambda>r. ord_id r = i) (orders d))\<rparr>,
          put_db (d\<lparr>orders := filter (\<lambda>r. ord_id r \<noteq> i) (orders d)\<rparr>) w))"

text \<open>
  \<^verbatim>\<open>client.query(text, params)\<close>: one round trip. The statement is recorded as sent;
  when the round trip fails the statement has no effect and the promise rejects.
\<close>

definition client_query :: "env \<Rightarrow> stmt \<Rightarrow> QueryResult io" where
  "client_query E s w =
     (let w1 = emit (Stmt s) (w\<lparr>clock := clock w + 1\<rparr>)
      in case db_fault E (clock w) of
           Some e \<Rightarrow> (Inl e, w1)
         | None \<Rightarrow> (case exec_stmt s w1 of (r, w2) \<Rightarrow> (Inr r, w2)))"

text \<open>
  \<^verbatim>\<open>pool.connect()\<close>: one round trip that hands out the pooled client, in the state in
  which it was released (a transaction left open on it is still open), or rejects.
\<close>

definition pool_connect :: "env \<Rightarrow> unit io" where
  "pool_connect E w =
     (let w1 = w\<lparr>clock := clock w + 1\<rparr>
      in case db_fault E (clock w) of
           Some e \<Rightarrow> (Inl e, w1)
         | None \<Rightarrow> (Inr (), emit Acquire (w1\<lparr>in_use := in_use w1 + 1\<rparr>)))"

text \<open>\<^verbatim>\<open>client.release()\<close>.\<close>

definition client_release :: "world \<Rightarrow> world" where
  "client_release w = emit Release (w\<lparr>in_use := in_use w - 1\<rparr>)"

subsection \<open>Repository: \<^verbatim>\<open>executeQuery\<close> and \<^verbatim>\<open>executeTransaction\<close>\<close>

text \<open>
  \<^verbatim>\<open>
  const client = await pool.connect();
  try {
    const result = await client.query(query, params);
    return { rows: result.rows, rowCount: result.rowCount || 0 };
  } finally { client.release(); }
  \<close>
  A \<^verbatim>\<open>rowCount\<close> is a number, so \<^verbatim>\<open>result.rowCount || 0\<close> is that number.
\<close>

definition executeQuery :: "env \<Rightarrow> stmt \<Rightarrow> QueryResult io" where
  "executeQuery E s =
     andThen (pool_connect E) (\<lambda>_.
       tryFinally
         (andThen (client_query E s) (\<lambda>result.
            resolve \<lparr>rows = rows result, rowCount = rowCount result\<rparr>))
         client_release)"

text \<open>
  \<^verbatim>\<open>
  const client = await pool.connect();
  try {
    await client.query('BEGIN');
    const result = await callback(client);
    await client.query('COMMIT');
    return result;
  } catch (error) {
    await client.query('ROLLBACK');
    throw error;
  } finally { client.release(); }
  \<close>
  The client that the callback receives is the one whose transaction the world holds.
\<close>

definition executeTransaction :: "env \<Rightarrow> 'a io \<Rightarrow> 'a io" where
  "executeTransaction E callback =
     andThen (pool_connect E) (\<lambda>_.
       tryFinally
         (tryCatch
            (andThen (client_query E Begin) (\<lambda>_.
             andThen callback (\<lambda>result.
             andThen (client_query E Commit) (\<lambda>_.
             resolve result))))
            (\<lambda>error.
             andThen (client_query E Rollback) (\<lambda>_.
             reject error)))
         client_release)"

subsection \<open>Notification service\<close>

text \<open>
  \<^verbatim>\<open>sendEmail\<close> logs, waits for the delivery channel, logs. The source stands a timer
  in for the channel, and a timer always completes; here the channel may also fail, as
  \<open>deliver_fault\<close> says, and \<open>no_faults\<close> is the behaviour of the source's timer.
\<close>

definition sendEmail :: "env \<Rightarrow> EmailNotification \<Rightarrow> unit io" where
  "sendEmail E notification =
     andThen (logger Info ''Sending email''
                [(''to'', Str (to_addr notification)), (''subject'', Str (subject notification))]) (\<lambda>_.
     andThen (\<lambda>w. case deliver_fault E notification of
                     Some e \<Rightarrow> (Inl e, w)
                   | None \<Rightarrow> (Inr (), emit (Delivered notification) w)) (\<lambda>_.
     logger Info ''Email sent successfully'' [(''to'', Str (to_addr notification))]))"

text \<open>
  \<^verbatim>\<open>fetchUserEmail\<close>: the user directory, again a timer in the source; the result is the
  \<^verbatim>\<open>email\<close> field of the object it returns.
\<close>

definition fetchUserEmail :: "env \<Rightarrow> int \<Rightarrow> string io" where
  "fetchUserEmail E uid =
     (case lookup_fault E uid of
        Some e \<Rightarrow> reject e
      | None \<Rightarrow> resolve (''user'' @ toString uid @ ''@example.com''))"

definition sendOrderConfirmation :: "env \<Rightarrow> int \<Rightarrow> int \<Rightarrow> unit io" where
  "sendOrderConfirmation E orderId uid =
     tryCatch
       (andThen (fetchUserEmail E uid) (\<lambda>user.
        sendEmail E \<lparr>to_addr = user, subject = ''Order Confirmation'',
                     body = ''Your order #'' @ toString orderId @ '' has been confirmed.'',
                     template = Some ''order-confirmation''\<rparr>))
       (\<lambda>error. reject (Error ''Failed to send order confirmation''))"

definition sendOrderCancellation :: "env \<Rightarrow> int \<Rightarrow> int \<Rightarrow> unit io" where
  "sendOrderCancellation E orderId uid =
     tryCatch
       (andThen (fetchUserEmail E uid) (\<lambda>user.
        sendEmail E \<lparr>to_addr = user, subject = ''Order Cancellation'',
                     body = ''Your order #'' @ toString orderId @ '' has been cancelled.'',
                     template = Some ''order-cancellation''\<rparr>))
       (\<lambda>err. reject (Error ''Order cancellation notification failed''))"

definition sendPasswordReset :: "env \<Rightarrow> string \<Rightarrow> string \<Rightarrow> unit io" where
  "sendPasswordReset E email token =
     andThen (logger Info ''Sending password reset email'' [(''email'', Str email)]) (\<lambda>_.
     tryCatch
       (andThen (sendEmail E \<lparr>to_addr = email, subject = ''Password Reset Request'',
                              body = ''Use this token to reset your password: '' @ token,
                              template = Some ''password-reset''\<rparr>) (\<lambda>_.
        logger Info ''Password reset email sent'' [(''email'', Str email)]))
       (\<lambda>error.
        andThen (logger Failure ''Failed to send password reset email''
                   [(''email'', Str email), (''error'', Err error)]) (\<lambda>_.
        reject error)))"

definition sendWelcomeEmail :: "env \<Rightarrow> int \<Rightarrow> unit io" where
  "sendWelcomeEmail E uid =
     tryCatch
       (andThen (fetchUserEmail E uid) (\<lambda>user.
        andThen (sendEmail E \<lparr>to_addr = user, subject = ''Welcome!'',
                              body = ''Welcome to our platform!'',
                              template = Some ''welcome''\<rparr>) (\<lambda>_.
        logger Info ''Welcome email sent'' [(''userId'', Num uid)])))
       (\<lambda>error.
        logger Failure ''Failed to send welcome email''
          [(''userId'', Num uid), (''error'', Err error)])"

text \<open>
  \<^verbatim>\<open>Promise.allSettled\<close>: every promise runs to its end and its outcome is kept; the
  combined promise never rejects. The promises run here one after the other.
\<close>

datatype settled = Fulfilled | Rejected error

fun settle :: "unit io list \<Rightarrow> world \<Rightarrow> settled list \<times> world" where
  "settle [] w = ([], w)"
| "settle (p # ps) w =
     (case p w of
        (r, w1) \<Rightarrow>
          (case settle ps w1 of
             (rs, w2) \<Rightarrow> ((case r of Inl e \<Rightarrow> Rejected e | Inr _ \<Rightarrow> Fulfilled) # rs, w2)))"

definition allSettled :: "unit io list \<Rightarrow> settled list io" where
  "allSettled ps w = (case settle ps w of (rs, w') \<Rightarrow> (Inr rs, w'))"

definition sendBulkNotifications :: "env \<Rightarrow> int list \<Rightarrow> string \<Rightarrow> string \<Rightarrow> unit io" where
  "sendBulkNotifications E userIds subj content =
     andThen (logger Info ''Sending bulk notifications''
                [(''count'', Num (int (length userIds)))]) (\<lambda>_.
     andThen (allSettled
                (map (\<lambda>uid.
                        andThen (fetchUserEmail E uid) (\<lambda>user.
                        sendEmail E \<lparr>to_addr = user, subject = subj, body = content,
                                     template = None\<rparr>))
                     userIds)) (\<lambda>results.
     let successful = length (filter (\<lambda>r. r = Fulfilled) results);
         failed = length (filter (\<lambda>r. r \<noteq> Fulfilled) results)
     in logger Info ''Bulk notifications completed''
          [(''successful'', Num (int successful)), (''failed'', Num (int failed))]))"

subsection \<open>Order service\<close>

text \<open>\<^verbatim>\<open>rows[0]\<close>: \<^verbatim>\<open>undefined\<close> (here \<open>None\<close>) when there is no row.\<close>

definition first_row :: "'a list \<Rightarrow> 'a option" where
  "first_row rs = (case rs of [] \<Rightarrow> None | r # _ \<Rightarrow> Some r)"

text \<open>The \<^verbatim>\<open>for (const item of input.items)\<close> loop of \<^verbatim>\<open>createOrder\<close>.\<close>

fun insertItems :: "env \<Rightarrow> int \<Rightarrow> ItemInput list \<Rightarrow> unit io" where
  "insertItems E ordr [] = resolve ()"
| "insertItems E ordr (item # rest) =
     andThen (client_query E (InsertOrderItem ordr (productId item) (quantity item) (price item)))
       (\<lambda>_. insertItems E ordr rest)"

text \<open>
  The callback that \<^verbatim>\<open>createOrder\<close> hands to \<^verbatim>\<open>executeTransaction\<close> (lines 34 to 66).
  Reading \<^verbatim>\<open>order.id\<close> when the insert returned no row throws a \<^verbatim>\<open>TypeError\<close>.
\<close>

definition createOrder_callback :: "env \<Rightarrow> CreateOrderInput \<Rightarrow> Order io" where
  "createOrder_callback E input =
     (let totalAmount = foldl (\<lambda>sum item. js_add sum (js_mul (price item) (quantity item)))
                          (Fin 0) (items input)
      in andThen (client_query E (InsertOrder (userId input) ''pending'' totalAmount)) (\<lambda>orderResult.
         case first_row (rows orderResult) of
           None \<Rightarrow> reject (TypeError ''Cannot read properties of undefined (reading id)'')
         | Some ordr \<Rightarrow>
             andThen (logger Info ''Order created'' [(''orderId'', Num (ord_id ordr))]) (\<lambda>_.
             andThen (insertItems E (ord_id ordr) (items input)) (\<lambda>_.
             andThen (logger Info ''Order items added''
                        [(''orderId'', Num (ord_id ordr)),
                         (''itemCount'', Num (int (length (items input))))]) (\<lambda>_.
             andThen (tryCatch
                        (sendOrderConfirmation E (ord_id ordr) (userId input))
                        (\<lambda>error. logger Failure ''Failed to send order confirmation''
                                    [(''orderId'', Num (ord_id ordr)), (''error'', Err error)])) (\<lambda>_.
             resolve ordr))))))"

definition createOrder :: "env \<Rightarrow> CreateOrderInput \<Rightarrow> Order io" where
  "createOrder E input =
     andThen (logger Info ''Creating new order''
                [(''userId'', Num (userId input)),
                 (''itemCount'', Num (int (length (items input))))]) (\<lambda>_.
     executeTransaction E (createOrder_callback E input))"

text \<open>\<^verbatim>\<open>result.rows[0] || null\<close>: a row is an object, hence truthy.\<close>

definition getOrderById :: "env \<Rightarrow> int \<Rightarrow> Order option io" where
  "getOrderById E orderId =
     andThen (logger Info ''Fetching order'' [(''orderId'', Num orderId)]) (\<lambda>_.
     andThen (executeQuery E (SelectOrder orderId)) (\<lambda>result.
     resolve (first_row (rows result))))"

text \<open>
  The three status operations return \<^verbatim>\<open>result.rows[0]\<close> as it is: their result is an
  \<open>Order option\<close>, \<open>None\<close> being \<^verbatim>\<open>undefined\<close>.
\<close>

definition updateOrderStatus :: "env \<Rightarrow> int \<Rightarrow> string \<Rightarrow> Order option io" where
  "updateOrderStatus E orderId st =
     andThen (logger Info ''Updating order status''
                [(''orderId'', Num orderId), (''status'', Str st)]) (\<lambda>_.
     andThen (executeQuery E (UpdateStatus st orderId)) (\<lambda>result.
     let ordr = first_row (rows result)
     in andThen (logger Info ''Order status updated''
                   [(''orderId'', Num orderId), (''newStatus'', Str st)]) (\<lambda>_.
        resolve ordr)))"

definition markOrderPaid :: "env \<Rightarrow> int \<Rightarrow> Order option io" where
  "markOrderPaid E orderId =
     andThen (executeQuery E (UpdatePaid ''paid'' orderId)) (\<lambda>result.
     resolve (first_row (rows result)))"

definition cancelOrder :: "env \<Rightarrow> int \<Rightarrow> unit io" where
  "cancelOrder E orderId =
     andThen (executeQuery E (DeleteOrderItems orderId)) (\<lambda>_.
     andThen (executeQuery E (DeleteOrder orderId)) (\<lambda>_.
     tryCatch
       (andThen (getOrderById E orderId) (\<lambda>found.
        case found of
          Some ordr \<Rightarrow> sendOrderCancellation E orderId (user_id ordr)
        | None \<Rightarrow> resolve ()))
       (\<lambda>error. resolve ())))"

definition fulfillOrder :: "env \<Rightarrow> int \<Rightarrow> Order option io" where
  "fulfillOrder E orderId =
     andThen (logger Info ''Fulfilling order'' [(''orderId'', Num orderId)]) (\<lambda>_.
     andThen (updateOrderStatus E orderId ''fulfilled'') (\<lambda>ordr.
     andThen (logger Info ''Order fulfilled'' [(''orderId'', Num orderId)]) (\<lambda>_.
     resolve ordr)))"

subsection \<open>Vocabulary of the properties\<close>

text \<open>The events that a call added to the trace: \<open>w\<close> before the call, \<open>w'\<close> after.\<close>

definition new_events :: "world \<Rightarrow> world \<Rightarrow> event list" where
  "new_events w w' = drop (length (trace w)) (trace w')"

text \<open>The world once the pool has handed out a client.\<close>

definition connected :: "world \<Rightarrow> world" where
  "connected w = emit Acquire (w\<lparr>clock := clock w + 1, in_use := in_use w + 1\<rparr>)"

text \<open>
  \<^verbatim>\<open>executeQuery\<close> makes two round trips, the connect at tick \<open>t\<close> and the statement at
  the next tick; \<open>store_fault E t\<close> is the first of them to fail, if any.
\<close>

definition store_fault :: "env \<Rightarrow> nat \<Rightarrow> error option" where
  "store_fault E t = (case db_fault E t of Some e \<Rightarrow> Some e | None \<Rightarrow> db_fault E (Suc t))"

text \<open>An environment whose round trips fail at the listed ticks, and nothing else fails.\<close>

definition db_faults :: "(nat \<times> error) list \<Rightarrow> env" where
  "db_faults fs = no_faults\<lparr>db_fault := map_of fs\<rparr>"

text \<open>Sample worlds and inputs.\<close>

definition empty_shop :: world where
  "empty_shop = \<lparr>committed = \<lparr>orders = [], order_items = []\<rparr>, txn = None, in_use = 0,
                  order_seq = 1, item_seq = 1, clock = 0, trace = []\<rparr>"

definition one_order_shop :: world where
  "one_order_shop =
     \<lparr>committed =
        \<lparr>orders = [\<lparr>ord_id = 1, user_id = 7, status = ''pending'', total_amount = Fin 35,
                     created_at = 3, updated_at = 3, paid_at = None\<rparr>],
         order_items = [\<lparr>item_id = 1, order_id = 1, product_id = 1, item_quantity = Fin 2,
                          item_price = Fin 10\<rparr>,
                        \<lparr>item_id = 2, order_id = 1, product_id = 2, item_quantity = Fin 3,
                          item_price = Fin 5\<rparr>]\<rparr>,
      txn = None, in_use = 0, order_seq = 2, item_seq = 3, clock = 6, trace = []\<rparr>"

definition two_items :: CreateOrderInput where
  "two_items = \<lparr>userId = 7, items = [\<lparr>productId = 1, quantity = Fin 2, price = Fin 10\<rparr>,
                                      \<lparr>productId = 2, quantity = Fin 3, price = Fin 5\<rparr>]\<rparr>"

text \<open>An order of one unit at \<open>2 ^ 53\<close> and one unit at 1.\<close>

definition big_prices :: CreateOrderInput where
  "big_prices = \<lparr>userId = 7,
                  items = [\<lparr>productId = 1, quantity = Fin 1, price = Fin (2 ^ 53)\<rparr>,
                           \<lparr>productId = 2, quantity = Fin 1, price = Fin 1\<rparr>]\<rparr>"

text \<open>The \<^verbatim>\<open>catch\<close> and \<^verbatim>\<open>finally\<close> blocks of \<^verbatim>\<open>executeTransaction\<close> run on an error.\<close>

definition rollback_rethrow :: "env \<Rightarrow> error \<Rightarrow> 'a io" where
  "rollback_rethrow E error w =
     (case client_query E Rollback w of
        (Inl e', w') \<Rightarrow> (Inl e', client_release w')
      | (Inr _, w') \<Rightarrow> (Inl error, client_release w'))"

text \<open>
  The events that belong to the transaction coordinator: taking and releasing the
  client, and the three transaction statements.
\<close>

fun is_ctl :: "event \<Rightarrow> bool" where
  "is_ctl (Stmt Begin) = True"
| "is_ctl (Stmt Commit) = True"
| "is_ctl (Stmt Rollback) = True"
| "is_ctl Acquire = True"
| "is_ctl Release = True"
| "is_ctl _ = False"

text \<open>
  What a unit of work may do to the world: it neither takes nor releases clients, it
  writes through the open transaction only (it does not commit or roll back), and the
  events it adds are its own statements, log lines and deliveries.
\<close>

definition txn_step :: "world \<Rightarrow> world \<Rightarrow> bool" where
  "txn_step w w' =
     (in_use w' = in_use w
      \<and> (txn w \<noteq> None \<longrightarrow> txn w' \<noteq> None \<and> committed w' = committed w)
      \<and> (\<exists>evs. trace w' = trace w @ evs \<and> list_all (\<lambda>ev. \<not> is_ctl ev) evs))"

definition unit_of_work :: "'a io \<Rightarrow> bool" where
  "unit_of_work callback = (\<forall>w. txn_step w (snd (callback w)))"


text \<open>
  The message that \<^verbatim>\<open>sendOrderConfirmation\<close> builds, and the events that the dispatch
  step of \<^verbatim>\<open>createOrder\<close> (the \<^verbatim>\<open>try\<close>/\<^verbatim>\<open>catch\<close> around it) adds to the trace: the
  failure line alone when the directory lookup fails, the attempt and the failure line
  when the delivery fails, the attempt, the delivery and its confirmation otherwise.
\<close>

definition confirmation_email :: "int \<Rightarrow> int \<Rightarrow> EmailNotification" where
  "confirmation_email orderId uid =
     \<lparr>to_addr = ''user'' @ toString uid @ ''@example.com'', subject = ''Order Confirmation'',
      body = ''Your order #'' @ toString orderId @ '' has been confirmed.'',
      template = Some ''order-confirmation''\<rparr>"

definition confirmation_events :: "env \<Rightarrow> int \<Rightarrow> int \<Rightarrow> event list" where
  "confirmation_events E orderId uid =
     (let sending = Log Info ''Sending email''
                      [(''to'', Str (''user'' @ toString uid @ ''@example.com'')),
                       (''subject'', Str ''Order Confirmation'')];
          failed = Log Failure ''Failed to send order confirmation''
                     [(''orderId'', Num orderId),
                      (''error'', Err (Error ''Failed to send order confirmation''))]
      in case lookup_fault E uid of
           Some e \<Rightarrow> [failed]
         | None \<Rightarrow>
            (case deliver_fault E (confirmation_email orderId uid) of
               Some e \<Rightarrow> [sending, failed]
             | None \<Rightarrow> [sending, Delivered (confirmation_email orderId uid),
                        Log Info ''Email sent successfully''
                          [(''to'', Str (''user'' @ toString uid @ ''@example.com''))]]))"

text \<open>
  The total that the \<^verbatim>\<open>reduce\<close> of \<^verbatim>\<open>createOrder\<close> computes: the products of price and
  quantity added up from the left, in the arithmetic of doubles.
\<close>

definition order_total :: "ItemInput list \<Rightarrow> number" where
  "order_total its =
     foldl (\<lambda>sum item. js_add sum (js_mul (price item) (quantity item))) (Fin 0) its"

text \<open>
  The sum over all items of unit price times quantity, as the specification words it:
  the exact sum of the exact products (of the finite values). A number is \<open>whole\<close> when
  it is a whole number that is not negative.
\<close>

definition value_of :: "number \<Rightarrow> rat" where
  "value_of n = (case n of Fin r \<Rightarrow> r | _ \<Rightarrow> 0)"

definition exact_total :: "ItemInput list \<Rightarrow> rat" where
  "exact_total its = (\<Sum>item\<leftarrow>its. value_of (price item) * value_of (quantity item))"

definition whole :: "number \<Rightarrow> bool" where
  "whole n = (case n of Fin r \<Rightarrow> 0 \<le> r \<and> r = of_int \<lfloor>r\<rfloor> | _ \<Rightarrow> False)"

text \<open>
  What \<^verbatim>\<open>createOrder\<close> creates: the Order row, with the total of the \<^verbatim>\<open>reduce\<close>, and one
  OrderItem row per input item, numbered from the item sequence. \<open>item_stmts\<close> are the
  insert statements of the items as events.
\<close>

definition new_order :: "CreateOrderInput \<Rightarrow> int \<Rightarrow> nat \<Rightarrow> Order" where
  "new_order input i t =
     \<lparr>ord_id = i, user_id = userId input, status = ''pending'',
      total_amount = order_total (items input),
      created_at = t, updated_at = t, paid_at = None\<rparr>"

fun item_rows :: "int \<Rightarrow> int \<Rightarrow> ItemInput list \<Rightarrow> OrderItem list" where
  "item_rows ordr seq [] = []"
| "item_rows ordr seq (item # rest) =
     \<lparr>item_id = seq, order_id = ordr, product_id = productId item,
      item_quantity = quantity item, item_price = price item\<rparr> # item_rows ordr (seq + 1) rest"

definition item_stmts :: "int \<Rightarrow> ItemInput list \<Rightarrow> event list" where
  "item_stmts ordr its =
     map (\<lambda>item. Stmt (InsertOrderItem ordr (productId item) (quantity item) (price item))) its"

text \<open>
  For a call of \<^verbatim>\<open>createOrder\<close> in the world \<open>w\<close>: the connect is the round trip of
  tick \<open>clock w\<close>, \<^verbatim>\<open>BEGIN\<close> the next, the order insert the one after (so the row is
  stamped \<open>clock w + 3\<close>), then one round trip per item, then \<^verbatim>\<open>COMMIT\<close>.
\<close>

definition created_order :: "CreateOrderInput \<Rightarrow> world \<Rightarrow> Order" where
  "created_order input w = new_order input (order_seq w) (clock w + 3)"

definition created_items :: "CreateOrderInput \<Rightarrow> world \<Rightarrow> OrderItem list" where
  "created_items input w = item_rows (order_seq w) (item_seq w) (items input)"

text \<open>The events of the callback of \<^verbatim>\<open>createOrder\<close> when its inserts succeed.\<close>

definition callback_events :: "env \<Rightarrow> CreateOrderInput \<Rightarrow> int \<Rightarrow> event list" where
  "callback_events E input i =
     [Stmt (InsertOrder (userId input) ''pending'' (order_total (items input))),
      Log Info ''Order created'' [(''orderId'', Num i)]]
     @ item_stmts i (items input)
     @ [Log Info ''Order items added''
          [(''orderId'', Num i), (''itemCount'', Num (int (length (items input))))]]
     @ confirmation_events E i (userId input)"

text \<open>
  The world of \<^verbatim>\<open>createOrder\<close> at the moment it sends \<^verbatim>\<open>COMMIT\<close>. The transaction works
  on the rows that the client saw when the call started (\<open>cur_db w\<close>: the committed rows,
  unless an earlier call left a transaction open on the client).
\<close>

definition ready_to_commit :: "env \<Rightarrow> CreateOrderInput \<Rightarrow> world \<Rightarrow> world" where
  "ready_to_commit E input w =
     w\<lparr>txn := Some ((cur_db w)
                      \<lparr>orders := orders (cur_db w) @ [created_order input w],
                       order_items := order_items (cur_db w) @ created_items input w\<rparr>),
       in_use := in_use w + 1,
       order_seq := order_seq w + 1,
       item_seq := item_seq w + int (length (items input)),
       clock := clock w + 3 + length (items input),
       trace := trace w @
         [Log Info ''Creating new order''
            [(''userId'', Num (userId input)),
             (''itemCount'', Num (int (length (items input))))],
          Acquire, Stmt Begin]
         @ callback_events E input (order_seq w)\<rparr>"

text \<open>
  \<open>deliveries_after_commit c evs\<close>: every delivery in \<open>evs\<close> comes after a \<^verbatim>\<open>COMMIT\<close> was
  sent (\<open>c\<close> says whether one was sent already).
\<close>

fun deliveries_after_commit :: "bool \<Rightarrow> event list \<Rightarrow> bool" where
  "deliveries_after_commit c [] = True"
| "deliveries_after_commit c (Stmt Commit # evs) = deliveries_after_commit True evs"
| "deliveries_after_commit c (Delivered n # evs) = (c \<and> deliveries_after_commit c evs)"
| "deliveries_after_commit c (ev # evs) = deliveries_after_commit c evs"

text \<open>
  Bulk notifications: the message for one recipient, the outcome that the recipient's
  own lookup and delivery determine, and the notifications delivered in a trace.
\<close>

definition bulk_email :: "string \<Rightarrow> string \<Rightarrow> int \<Rightarrow> EmailNotification" where
  "bulk_email subj content uid =
     \<lparr>to_addr = ''user'' @ toString uid @ ''@example.com'', subject = subj, body = content,
      template = None\<rparr>"

definition recipient_outcome :: "env \<Rightarrow> string \<Rightarrow> string \<Rightarrow> int \<Rightarrow> settled" where
  "recipient_outcome E subj content uid =
     (case lookup_fault E uid of
        Some e \<Rightarrow> Rejected e
      | None \<Rightarrow>
         (case deliver_fault E (bulk_email subj content uid) of
            Some e \<Rightarrow> Rejected e
          | None \<Rightarrow> Fulfilled))"

fun deliveries :: "event list \<Rightarrow> EmailNotification list" where
  "deliveries [] = []"
| "deliveries (Delivered n # evs) = n # deliveries evs"
| "deliveries (ev # evs) = deliveries evs"

text \<open>An environment whose directory does not know users 2 and 4.\<close>

definition directory_gaps :: env where
  "directory_gaps =
     no_faults\<lparr>lookup_fault :=
                  (\<lambda>uid. if uid = 2 \<or> uid = 4 then Some (Error ''no such user'') else None)\<rparr>"

text \<open>Environments in which the delivery channel, or the user directory, is down.\<close>

definition channel_down :: env where
  "channel_down = no_faults\<lparr>deliver_fault := (\<lambda>_. Some (Error ''smtp down''))\<rparr>"

definition directory_down :: env where
  "directory_down = no_faults\<lparr>lookup_fault := (\<lambda>_. Some (Error ''directory down''))\<rparr>"



section \<open>Properties\<close>

subsection \<open>Doubles hold the whole numbers up to \<open>2 ^ 53\<close> exactly\<close>

lemma round_half_even_int: "round_half_even (of_int k) = k"
  by (simp add: round_half_even_def)

lemma below_overflow:
  assumes "0 \<le> y" and "y \<le> 2 ^ 53"
  shows "\<not> overflow \<le> y" and "\<not> y \<le> - overflow"
proof -
  have "(2::rat) ^ 53 < 2 ^ 1024" by (rule power_strict_increasing) simp_all
  with assms(2) show "\<not> overflow \<le> y" unfolding overflow_def by linarith
  have "(0::rat) < 2 ^ 1024" by (rule zero_less_power) simp
  with assms(1) show "\<not> y \<le> - overflow" unfolding overflow_def by linarith
qed

lemma scale_exact:
  assumes "u \<le> 0"
  shows "round_half_even (of_int n / power_int 2 u) = n * 2 ^ nat (- u)"
    and "of_int (n * 2 ^ nat (- u)) * power_int (2::rat) u = of_int n"
proof -
  have p: "power_int (2::rat) u = inverse (2 ^ nat (- u))"
    using assms by (cases "u = 0") (simp_all add: power_int_def power_divide inverse_eq_divide)
  have "of_int n / power_int (2::rat) u = of_int (n * 2 ^ nat (- u))"
    by (simp add: p field_simps)
  then show "round_half_even (of_int n / power_int 2 u) = n * 2 ^ nat (- u)"
    by (simp only: round_half_even_int)
  show "of_int (n * 2 ^ nat (- u)) * power_int (2::rat) u = of_int n"
    by (simp add: p)
qed

lemma safe_exponent:
  assumes "0 < n" and "n \<le> 2 ^ 53"
  shows "bitlen n - 53 \<le> 0 \<or> n = 2 ^ 53"
proof (rule ccontr)
  assume a: "\<not> (bitlen n - 53 \<le> 0 \<or> n = 2 ^ 53)"
  then have "54 \<le> bitlen n" by simp
  then have "53 \<le> nat (bitlen n - 1)" by linarith
  then have "(2::int) ^ 53 \<le> 2 ^ nat (bitlen n - 1)"
    by (intro power_increasing) simp_all
  also have "\<dots> \<le> n" using bitlen_bounds [OF assms(1)] by simp
  finally show False using a assms(2) by simp
qed

lemma fl_pos_int:
  assumes "0 < n" and "n \<le> 2 ^ 53"
  shows "fl (of_int n) = Fin (of_int n)"
proof -
  have b1: "1 \<le> bitlen n"
    using assms(1) by (simp add: bitlen_alt_def)
  have x: "(of_int n :: rat) \<noteq> 0" "\<bar>of_int n :: rat\<bar> = of_int n" "(1::rat) \<le> of_int n"
    using assms(1) by simp_all
  have e: "ilog2 (of_int n) - 52 = bitlen n - 53"
    using assms(1) by (simp add: ilog2_def)
  have u: "max (bitlen n - 53) (- 1074) = bitlen n - 53"
    using b1 by simp
  have r: "(0::rat) \<le> of_int n" "(of_int n :: rat) \<le> 2 ^ 53"
  proof -
    show "(0::rat) \<le> of_int n" using assms(1) by simp
    have "(of_int n :: rat) \<le> of_int (2 ^ 53)" using assms(2) by (simp only: of_int_le_iff)
    then show "(of_int n :: rat) \<le> 2 ^ 53" by simp
  qed
  consider (low) "bitlen n - 53 \<le> 0" | (top) "n = 2 ^ 53"
    using safe_exponent [OF assms] by blast
  then show ?thesis
  proof cases
    case low
    show ?thesis
      unfolding fl_def Let_def x(2) e u scale_exact [OF low]
      using x(1) below_overflow [OF r] by simp
  next
    case top
    have b: "bitlen n = 54"
      unfolding top using bitlen_pow2 [of 1 53] by (simp add: compute_bitlen)
    have h: "round_half_even (of_int n / power_int 2 1) = 2 ^ 52"
    proof -
      have "(of_int n :: rat) / power_int 2 1 = of_int (2 ^ 52)" by (simp add: top)
      then show ?thesis by (simp only: round_half_even_int)
    qed
    have y: "of_int (2 ^ 52) * power_int (2::rat) 1 = of_int n"
      by (simp add: top)
    show ?thesis
      unfolding fl_def Let_def x(2) e u b
      using x(1) below_overflow [OF r] h y by simp
  qed
qed

lemma fl_whole:
  assumes "0 \<le> n" and "n \<le> 2 ^ 53"
  shows "fl (of_int n) = Fin (of_int n)"
  using assms fl_pos_int [of n] by (cases "n = 0") (simp_all add: fl_def)

lemma whole_iff: "whole (Fin r) \<longleftrightarrow> 0 \<le> r \<and> r \<in> \<int>"
proof -
  have "r = of_int \<lfloor>r\<rfloor> \<longleftrightarrow> r \<in> \<int>"
    by (metis Ints_of_int of_int_floor)
  then show ?thesis by (simp add: whole_def)
qed

lemma fl_Ints:
  assumes "0 \<le> r" and "r \<in> \<int>" and "r \<le> 2 ^ 53"
  shows "fl r = Fin r"
proof -
  from assms(2) obtain n where n: "r = of_int n" by (rule Ints_cases)
  have "0 \<le> n" using assms(1) by (simp add: n)
  moreover have "n \<le> 2 ^ 53" using assms(3) by (simp add: n)
  ultimately show ?thesis unfolding n by (rule fl_whole)
qed

lemma fl_numeral:
  "numeral k \<le> (2::int) ^ 53 \<Longrightarrow> fl (numeral k) = Fin (numeral k)"
  using fl_whole [of "numeral k"] by simp

lemma exact_total_nonneg:
  "\<forall>item \<in> set its. whole (price item) \<and> whole (quantity item) \<Longrightarrow> 0 \<le> exact_total its"
proof (induction its)
  case Nil
  then show ?case by (simp add: exact_total_def)
next
  case (Cons item rest)
  have "0 \<le> value_of (price item)" "0 \<le> value_of (quantity item)"
    using Cons.prems
    by (cases "price item"; cases "quantity item"; simp add: whole_def value_of_def)+
  then have "0 \<le> value_of (price item) * value_of (quantity item)" by simp
  moreover have "0 \<le> exact_total rest" using Cons by simp
  ultimately show ?case by (simp add: exact_total_def)
qed

lemma reduce_exact:
  assumes "\<forall>item \<in> set its. whole (price item) \<and> whole (quantity item)"
    and "0 \<le> a" and "a \<in> \<int>" and "a + exact_total its \<le> 2 ^ 53"
  shows "foldl (\<lambda>sum item. js_add sum (js_mul (price item) (quantity item))) (Fin a) its
           = Fin (a + exact_total its)"
  using assms
proof (induction its arbitrary: a)
  case Nil
  then show ?case by (simp add: exact_total_def)
next
  case (Cons item rest)
  obtain p q where pq: "price item = Fin p" "quantity item = Fin q"
    and w: "0 \<le> p" "p \<in> \<int>" "0 \<le> q" "q \<in> \<int>"
    using Cons.prems(1)
    by (cases "price item"; cases "quantity item"; simp add: whole_iff) (simp_all add: whole_def)
  have rest: "0 \<le> exact_total rest"
    using Cons.prems(1) by (intro exact_total_nonneg) simp
  have e: "exact_total (item # rest) = p * q + exact_total rest"
    by (simp add: exact_total_def pq value_of_def)
  have b: "a + p * q + exact_total rest \<le> 2 ^ 53"
    using Cons.prems(4) by (simp add: e add.assoc)
  have pq0: "0 \<le> p * q" using w by simp
  have m: "fl (p * q) = Fin (p * q)"
  proof -
    have "p * q \<le> 2 ^ 53" using b rest Cons.prems(2) by linarith
    then show ?thesis using pq0 w by (intro fl_Ints Ints_mult)
  qed
  have s: "fl (a + p * q) = Fin (a + p * q)"
  proof -
    have "a + p * q \<le> 2 ^ 53" using b rest by linarith
    moreover have "0 \<le> a + p * q" using pq0 Cons.prems(2) by simp
    moreover have "a + p * q \<in> \<int>" using w Cons.prems(3) by (intro Ints_add Ints_mult)
    ultimately show ?thesis by (intro fl_Ints)
  qed
  have "foldl (\<lambda>sum item. js_add sum (js_mul (price item) (quantity item))) (Fin (a + p * q)) rest
          = Fin (a + p * q + exact_total rest)"
  proof (rule Cons.IH)
    show "\<forall>item \<in> set rest. whole (price item) \<and> whole (quantity item)"
      using Cons.prems(1) by simp
    show "0 \<le> a + p * q" using pq0 Cons.prems(2) by simp
    show "a + p * q \<in> \<int>" using w Cons.prems(3) by (intro Ints_add Ints_mult)
    show "a + p * q + exact_total rest \<le> 2 ^ 53" by (rule b)
  qed
  then show ?case by (simp add: pq m s e add.assoc)
qed

lemma order_total_exact:
  assumes "\<forall>item \<in> set its. whole (price item) \<and> whole (quantity item)"
    and "exact_total its \<le> 2 ^ 53"
  shows "order_total its = Fin (exact_total its)"
  using reduce_exact [OF assms(1), of 0] assms(2) by (simp add: order_total_def)

lemma order_total_two_items: "order_total (items two_items) = Fin 35"
  by (simp add: order_total_def two_items_def fl_numeral)

lemma sum_beyond_two_to_53: "js_add (Fin (2 ^ 53)) (Fin 1) = Fin (2 ^ 53)"
proof -
  let ?x = "9007199254740993 :: rat"
  have b: "bitlen 9007199254740993 = 54" by (simp add: compute_bitlen)
  have e: "ilog2 \<bar>?x\<bar> - 52 = 1" by (simp add: ilog2_def b)
  have f: "\<lfloor>?x / 2\<rfloor> = 4503599627370496" by (rule floor_unique) simp_all
  have h: "round_half_even (?x / power_int 2 1) = 4503599627370496"
    by (simp add: round_half_even_def f Let_def)
  have y: "(0::rat) \<le> 9007199254740992" "(9007199254740992::rat) \<le> 2 ^ 53" by simp_all
  have "fl ?x = Fin 9007199254740992"
    unfolding fl_def Let_def e using below_overflow [OF y] h by simp
  then show ?thesis by simp
qed

lemma order_total_big_prices: "order_total (items big_prices) = Fin (2 ^ 53)"
proof -
  have "fl (2 ^ 53) = Fin (2 ^ 53)" using fl_whole [of "2 ^ 53"] by simp
  then have "js_mul (Fin (2 ^ 53)) (Fin 1) = Fin (2 ^ 53)" by simp
  moreover have "js_add (Fin 0) (Fin (2 ^ 53)) = Fin (2 ^ 53)"
    using \<open>fl (2 ^ 53) = Fin (2 ^ 53)\<close> by simp
  moreover have "js_mul (Fin 1) (Fin 1) = Fin 1" using fl_whole [of 1] by simp
  ultimately show ?thesis
    using sum_beyond_two_to_53
    by (simp only: order_total_def big_prices_def foldl.simps CreateOrderInput.simps
          ItemInput.simps)
qed

lemma exact_total_big_prices: "exact_total (items big_prices) = 2 ^ 53 + 1"
  by (simp add: exact_total_def big_prices_def value_of_def)

subsection \<open>Basic facts about the client and the repository\<close>

lemmas io_defs = resolve_def reject_def andThen_def tryCatch_def tryFinally_def logger_def

lemma emit_simps:
  "clock (emit ev w) = clock w"
  "txn (emit ev w) = txn w"
  "committed (emit ev w) = committed w"
  "in_use (emit ev w) = in_use w"
  "order_seq (emit ev w) = order_seq w"
  "item_seq (emit ev w) = item_seq w"
  "trace (emit ev w) = trace w @ [ev]"
  by (simp_all add: emit_def)

lemma exec_stmt_clock: "clock (snd (exec_stmt s w)) = clock w"
  by (cases s) (simp_all add: put_db_def Let_def split: option.splits)

lemma exec_stmt_in_use: "in_use (snd (exec_stmt s w)) = in_use w"
  by (cases s) (simp_all add: put_db_def Let_def split: option.splits)

lemma exec_stmt_trace: "trace (snd (exec_stmt s w)) = trace w"
  by (cases s) (simp_all add: put_db_def Let_def split: option.splits)

lemma client_query_eq:
  "client_query E s w =
     (case db_fault E (clock w) of
        Some e \<Rightarrow> (Inl e, emit (Stmt s) (w\<lparr>clock := clock w + 1\<rparr>))
      | None \<Rightarrow> (Inr (fst (exec_stmt s (emit (Stmt s) (w\<lparr>clock := clock w + 1\<rparr>)))),
                 snd (exec_stmt s (emit (Stmt s) (w\<lparr>clock := clock w + 1\<rparr>)))))"
  by (simp add: client_query_def Let_def case_prod_beta split: option.splits)


lemma client_query_in_use: "in_use (snd (client_query E s w)) = in_use w"
  by (simp add: client_query_eq emit_def exec_stmt_in_use split: option.splits)

lemma client_query_trace: "trace (snd (client_query E s w)) = trace w @ [Stmt s]"
  by (simp add: client_query_eq emit_def exec_stmt_trace split: option.splits)

lemma pool_connect_eq:
  "pool_connect E w =
     (case db_fault E (clock w) of
        Some e \<Rightarrow> (Inl e, w\<lparr>clock := clock w + 1\<rparr>)
      | None \<Rightarrow> (Inr (), connected w))"
  by (simp add: pool_connect_def connected_def Let_def emit_def split: option.splits)

lemma executeQuery_eq:
  "executeQuery E s w =
     (case db_fault E (clock w) of
        Some e \<Rightarrow> (Inl e, w\<lparr>clock := clock w + 1\<rparr>)
      | None \<Rightarrow>
          (case client_query E s (connected w) of
             (Inl e, w') \<Rightarrow> (Inl e, client_release w')
           | (Inr r, w') \<Rightarrow> (Inr r, client_release w')))"
  by (simp add: executeQuery_def pool_connect_eq io_defs split: option.splits prod.splits sum.splits)

lemma executeQuery_fst:
  "fst (executeQuery E s w) =
     (case db_fault E (clock w) of
        Some e \<Rightarrow> Inl e
      | None \<Rightarrow>
          (case db_fault E (Suc (clock w)) of
             Some e \<Rightarrow> Inl e
           | None \<Rightarrow> Inr (fst (exec_stmt s (emit (Stmt s) ((connected w)\<lparr>clock := clock w + 2\<rparr>))))))"
  by (simp add: executeQuery_eq client_query_eq connected_def emit_def split: option.splits)

subsection \<open>Status operations on an order that does not exist\<close>

lemma cur_db_simps:
  "cur_db (emit ev w) = cur_db w"
  "cur_db (connected w) = cur_db w"
  "cur_db (w\<lparr>clock := c\<rparr>) = cur_db w"
  "cur_db (client_release w) = cur_db w"
  by (simp_all add: cur_db_def emit_def connected_def client_release_def split: option.splits)

lemma no_match_rows:
  assumes "\<forall>r \<in> set (orders (cur_db w)). ord_id r \<noteq> i"
  shows "rows (fst (exec_stmt (UpdateStatus st i) w)) = []"
    and "rows (fst (exec_stmt (UpdatePaid st i) w)) = []"
  using assms by (simp_all add: Let_def filter_empty_conv)

lemma updateOrderStatus_fst:
  "fst (updateOrderStatus E i st w) =
     (case fst (executeQuery E (UpdateStatus st i)
                  (emit (Log Info ''Updating order status''
                           [(''orderId'', Num i), (''status'', Str st)]) w)) of
        Inl e \<Rightarrow> Inl e
      | Inr r \<Rightarrow> Inr (first_row (rows r)))"
  by (simp add: updateOrderStatus_def io_defs Let_def split: prod.splits sum.splits)

lemma updateOrderStatus_absent:
  assumes "\<forall>r \<in> set (orders (cur_db w)). ord_id r \<noteq> i"
  shows "fst (updateOrderStatus E i st w) =
           (case store_fault E (clock w) of Some e \<Rightarrow> Inl e | None \<Rightarrow> Inr None)"
  using assms
  by (simp add: updateOrderStatus_fst executeQuery_fst store_fault_def first_row_def
        no_match_rows cur_db_simps emit_simps del: exec_stmt.simps split: option.splits)

lemma markOrderPaid_absent:
  assumes "\<forall>r \<in> set (orders (cur_db w)). ord_id r \<noteq> i"
  shows "fst (markOrderPaid E i w) =
           (case store_fault E (clock w) of Some e \<Rightarrow> Inl e | None \<Rightarrow> Inr None)"
proof -
  have "fst (markOrderPaid E i w) =
          (case fst (executeQuery E (UpdatePaid ''paid'' i) w) of
             Inl e \<Rightarrow> Inl e
           | Inr r \<Rightarrow> Inr (first_row (rows r)))"
    by (simp add: markOrderPaid_def io_defs split: prod.splits sum.splits)
  with assms show ?thesis
    by (simp add: executeQuery_fst store_fault_def first_row_def
          no_match_rows cur_db_simps emit_simps del: exec_stmt.simps split: option.splits)
qed

lemma fulfillOrder_fst:
  "fst (fulfillOrder E i w) =
     fst (updateOrderStatus E i ''fulfilled''
            (emit (Log Info ''Fulfilling order'' [(''orderId'', Num i)]) w))"
  by (simp add: fulfillOrder_def io_defs split: prod.splits sum.splits)

lemma fulfillOrder_absent:
  assumes "\<forall>r \<in> set (orders (cur_db w)). ord_id r \<noteq> i"
  shows "fst (fulfillOrder E i w) =
           (case store_fault E (clock w) of Some e \<Rightarrow> Inl e | None \<Rightarrow> Inr None)"
  using assms
    updateOrderStatus_absent
      [of "emit (Log Info ''Fulfilling order'' [(''orderId'', Num i)]) w" i E "''fulfilled''"]
  by (simp add: fulfillOrder_fst cur_db_simps emit_simps)

text \<open>
  C10. When no Order row has the given id, \<^verbatim>\<open>updateOrderStatus\<close>, \<^verbatim>\<open>markOrderPaid\<close> and
  \<^verbatim>\<open>fulfillOrder\<close> raise no error of their own: unless one of the two round trips to
  the database fails, each resolves with the absent value \<^verbatim>\<open>undefined\<close> (the first row
  of an empty result set), and the only rejection is the failure of that round trip.
  The rows in question are those that the statement sees, \<open>cur_db w\<close>: the committed
  rows, as long as no earlier call has left a transaction open on the pooled client.
\<close>

theorem status_operations_absent_order:
  assumes "\<forall>r \<in> set (orders (cur_db w)). ord_id r \<noteq> i"
  shows "fst (updateOrderStatus E i st w) =
           (case store_fault E (clock w) of Some e \<Rightarrow> Inl e | None \<Rightarrow> Inr None)
       \<and> fst (markOrderPaid E i w) =
           (case store_fault E (clock w) of Some e \<Rightarrow> Inl e | None \<Rightarrow> Inr None)
       \<and> fst (fulfillOrder E i w) =
           (case store_fault E (clock w) of Some e \<Rightarrow> Inl e | None \<Rightarrow> Inr None)"
  using assms updateOrderStatus_absent markOrderPaid_absent fulfillOrder_absent by blast

theorem status_operations_absent_order_witness:
  "cur_db one_order_shop = committed one_order_shop
   \<and> 9 \<notin> ord_id ` set (orders (committed one_order_shop))
   \<and> fst (updateOrderStatus no_faults 9 ''paid'' one_order_shop) = Inr None
   \<and> fst (markOrderPaid no_faults 9 one_order_shop) = Inr None
   \<and> fst (fulfillOrder no_faults 9 one_order_shop) = Inr None"
proof -
  have h: "\<forall>r \<in> set (orders (cur_db one_order_shop)). ord_id r \<noteq> 9"
    by (simp add: one_order_shop_def cur_db_def)
  show ?thesis
    using status_operations_absent_order [OF h, of no_faults "''paid''"]
    by (simp add: store_fault_def no_faults_def one_order_shop_def cur_db_def)
qed

subsection \<open>Failure policies of the notification service\<close>

lemma sendEmail_eq:
  "sendEmail E n w =
     (case deliver_fault E n of
        Some e \<Rightarrow> (Inl e, emit (Log Info ''Sending email''
                               [(''to'', Str (to_addr n)), (''subject'', Str (subject n))]) w)
      | None \<Rightarrow> (Inr (), emit (Log Info ''Email sent successfully'' [(''to'', Str (to_addr n))])
                          (emit (Delivered n)
                             (emit (Log Info ''Sending email''
                                      [(''to'', Str (to_addr n)), (''subject'', Str (subject n))])
                                w))))"
  by (simp add: sendEmail_def io_defs split: option.splits)

lemma sendPasswordReset_fst:
  "fst (sendPasswordReset E email token w) =
     (case deliver_fault E \<lparr>to_addr = email, subject = ''Password Reset Request'',
                              body = ''Use this token to reset your password: '' @ token,
                              template = Some ''password-reset''\<rparr> of
        Some e \<Rightarrow> Inl e | None \<Rightarrow> Inr ())"
  by (simp add: sendPasswordReset_def sendEmail_eq io_defs split: option.splits)

lemma sendWelcomeEmail_fst: "fst (sendWelcomeEmail E uid w) = Inr ()"
  by (simp add: sendWelcomeEmail_def fetchUserEmail_def sendEmail_eq io_defs split: option.splits)

text \<open>
  C8. When the delivery channel fails with \<open>e\<close> on the password-reset message,
  \<^verbatim>\<open>sendPasswordReset\<close> rejects with that same \<open>e\<close>; \<^verbatim>\<open>sendWelcomeEmail\<close> resolves in
  every environment, whether the directory lookup or the delivery fails or not.
\<close>

theorem password_reset_propagates_welcome_swallows:
  assumes "deliver_fault E \<lparr>to_addr = email, subject = ''Password Reset Request'',
                              body = ''Use this token to reset your password: '' @ token,
                              template = Some ''password-reset''\<rparr> = Some e"
  shows "fst (sendPasswordReset E email token w) = Inl e
       \<and> fst (sendWelcomeEmail E' uid w') = Inr ()"
  using assms by (simp add: sendPasswordReset_fst sendWelcomeEmail_fst)

theorem password_reset_propagates_welcome_swallows_witness:
  "fst (sendPasswordReset channel_down ''ann@example.com'' ''t0k3n'' empty_shop)
     = Inl (Error ''smtp down'')
   \<and> fst (sendWelcomeEmail channel_down 7 empty_shop) = Inr ()
   \<and> fst (sendWelcomeEmail directory_down 7 empty_shop) = Inr ()"
proof -
  have h: "deliver_fault channel_down
             \<lparr>to_addr = ''ann@example.com'', subject = ''Password Reset Request'',
              body = ''Use this token to reset your password: '' @ ''t0k3n'',
              template = Some ''password-reset''\<rparr> = Some (Error ''smtp down'')"
    by (simp add: channel_down_def)
  show ?thesis
    using password_reset_propagates_welcome_swallows [OF h, of empty_shop channel_down 7 empty_shop]
      password_reset_propagates_welcome_swallows [OF h, of empty_shop directory_down 7 empty_shop]
    by simp
qed

subsection \<open>Cancelling an order\<close>

lemma andThen_Inl: "m w = (Inl e, w') \<Longrightarrow> andThen m f w = (Inl e, w')"
  by (simp add: andThen_def)

lemma andThen_Inr: "m w = (Inr x, w') \<Longrightarrow> andThen m f w = f x w'"
  by (simp add: andThen_def)

lemma tryCatch_swallow: "fst (tryCatch m (\<lambda>error. resolve ()) w) = Inr ()"
  by (simp add: io_defs split: prod.splits sum.splits)

lemma executeQuery_clock:
  "store_fault E (clock w) = None \<Longrightarrow> clock (snd (executeQuery E s w)) = clock w + 2"
  by (simp add: executeQuery_eq store_fault_def client_query_eq client_release_def emit_def
        exec_stmt_clock connected_def del: exec_stmt.simps split: option.splits)

lemma executeQuery_fault:
  "store_fault E (clock w) = Some e \<Longrightarrow> \<exists>w'. executeQuery E s w = (Inl e, w')"
proof -
  assume "store_fault E (clock w) = Some e"
  then have "fst (executeQuery E s w) = Inl e"
    by (simp add: executeQuery_fst store_fault_def del: exec_stmt.simps split: option.splits)
  then show ?thesis by (metis prod.collapse)
qed

lemma executeQuery_ok:
  "store_fault E (clock w) = None \<Longrightarrow>
     \<exists>r w'. executeQuery E s w = (Inr r, w') \<and> clock w' = clock w + 2"
proof -
  assume ok: "store_fault E (clock w) = None"
  then have "\<exists>r. fst (executeQuery E s w) = Inr r"
    by (simp add: executeQuery_fst store_fault_def del: exec_stmt.simps split: option.splits)
  with executeQuery_clock [OF ok] show ?thesis by (metis prod.collapse)
qed

lemma cancelOrder_fst:
  "fst (cancelOrder E i w) =
     (case store_fault E (clock w) of
        Some e \<Rightarrow> Inl e
      | None \<Rightarrow> (case store_fault E (clock w + 2) of Some e \<Rightarrow> Inl e | None \<Rightarrow> Inr ()))"
proof (cases "store_fault E (clock w)")
  case (Some e)
  then obtain w1 where "executeQuery E (DeleteOrderItems i) w = (Inl e, w1)"
    using executeQuery_fault by blast
  with Some show ?thesis
    by (simp add: cancelOrder_def andThen_Inl)
next
  case None
  then obtain r w1 where q1: "executeQuery E (DeleteOrderItems i) w = (Inr r, w1)"
    and c1: "clock w1 = clock w + 2"
    using executeQuery_ok by blast
  show ?thesis
  proof (cases "store_fault E (clock w + 2)")
    case (Some e)
    then obtain w2 where "executeQuery E (DeleteOrder i) w1 = (Inl e, w2)"
      using executeQuery_fault [of E w1 e "DeleteOrder i"] c1 by auto
    with None Some q1 show ?thesis
      by (simp add: cancelOrder_def andThen_Inl andThen_Inr)
  next
    case second: None
    then obtain r2 w2 where q2: "executeQuery E (DeleteOrder i) w1 = (Inr r2, w2)"
      using executeQuery_ok [of E w1 "DeleteOrder i"] c1 by auto
    show ?thesis
      using None second q1 q2 tryCatch_swallow
      by (simp add: cancelOrder_def andThen_Inr)
  qed
qed

text \<open>
  C5. On a shop that holds order 1 of user 7 with its two items, and with nothing
  failing, \<^verbatim>\<open>cancelOrder(1)\<close> deletes the item rows and the order row and resolves; it
  then looks the order up again, finds no row, and so never calls
  \<^verbatim>\<open>sendOrderCancellation\<close>: no email is logged as being sent and none is delivered.
\<close>

theorem cancelOrder_deletes_then_sends_nothing:
  "fst (cancelOrder no_faults 1 one_order_shop) = Inr ()
   \<and> committed (snd (cancelOrder no_faults 1 one_order_shop)) = \<lparr>orders = [], order_items = []\<rparr>
   \<and> new_events one_order_shop (snd (cancelOrder no_faults 1 one_order_shop)) =
       [Acquire, Stmt (DeleteOrderItems 1), Release,
        Acquire, Stmt (DeleteOrder 1), Release,
        Log Info ''Fetching order'' [(''orderId'', Num 1)],
        Acquire, Stmt (SelectOrder 1), Release]"
  by (simp add: cancelOrder_def getOrderById_def executeQuery_def pool_connect_def
        client_query_def client_release_def io_defs emit_def no_faults_def one_order_shop_def
        new_events_def Let_def cur_db_def put_db_def first_row_def)

text \<open>
  C6, as stated, fails: when the first \<^verbatim>\<open>DELETE\<close> fails, \<^verbatim>\<open>cancelOrder\<close> rejects with
  that failure.
\<close>

theorem cancelOrder_delete_failure_propagates:
  "fst (cancelOrder (db_faults [(7, Error ''delete failed'')]) 1 one_order_shop)
     = Inl (Error ''delete failed'')"
  by (simp add: cancelOrder_fst store_fault_def db_faults_def no_faults_def one_order_shop_def)

text \<open>
  C6, amended. \<^verbatim>\<open>cancelOrder\<close> swallows every error of the order lookup and of the
  notification send that follow the two deletes; an error of either delete (its connect
  or its statement) propagates to the caller. So the call rejects exactly when one of
  the two deletes fails, with that failure, and resolves otherwise.
\<close>

theorem cancelOrder_swallows_only_after_deletes:
  "fst (cancelOrder E i w) =
     (case store_fault E (clock w) of
        Some e \<Rightarrow> Inl e
      | None \<Rightarrow> (case store_fault E (clock w + 2) of Some e \<Rightarrow> Inl e | None \<Rightarrow> Inr ()))"
  by (rule cancelOrder_fst)

theorem cancelOrder_swallows_only_after_deletes_witness:
  "fst (cancelOrder (db_faults [(10, Error ''select failed'')]) 1 one_order_shop) = Inr ()
   \<and> fst (cancelOrder (db_faults [(9, Error ''second delete failed'')]) 1 one_order_shop)
       = Inl (Error ''second delete failed'')"
  using cancelOrder_swallows_only_after_deletes
          [of "db_faults [(10, Error ''select failed'')]" 1 one_order_shop]
        cancelOrder_swallows_only_after_deletes
          [of "db_faults [(9, Error ''second delete failed'')]" 1 one_order_shop]
  by (simp add: store_fault_def db_faults_def no_faults_def one_order_shop_def)

subsection \<open>The transaction coordinator\<close>

lemma executeTransaction_unfold:
  "executeTransaction E cb w =
     (case db_fault E (clock w) of
        Some e \<Rightarrow> (Inl e, w\<lparr>clock := clock w + 1\<rparr>)
      | None \<Rightarrow>
         (case client_query E Begin (connected w) of
            (Inl e, w2) \<Rightarrow> rollback_rethrow E e w2
          | (Inr _, w2) \<Rightarrow>
             (case cb w2 of
                (Inl e, w3) \<Rightarrow> rollback_rethrow E e w3
              | (Inr x, w3) \<Rightarrow>
                 (case client_query E Commit w3 of
                    (Inl e, w4) \<Rightarrow> rollback_rethrow E e w4
                  | (Inr _, w4) \<Rightarrow> (Inr x, client_release w4)))))"
  by (simp add: executeTransaction_def pool_connect_eq io_defs rollback_rethrow_def
        split: option.splits prod.splits sum.splits)

lemma txn_step_refl: "txn_step w w"
  by (simp add: txn_step_def)

lemma txn_step_trans: "txn_step w w' \<Longrightarrow> txn_step w' w'' \<Longrightarrow> txn_step w w''"
  by (auto simp: txn_step_def)

lemma txn_step_emit: "\<not> is_ctl ev \<Longrightarrow> txn_step w (emit ev w)"
  by (simp add: txn_step_def emit_def)

lemma exec_stmt_txn_step:
  "s \<noteq> Begin \<Longrightarrow> s \<noteq> Commit \<Longrightarrow> s \<noteq> Rollback \<Longrightarrow> txn_step w (snd (exec_stmt s w))"
  by (cases s) (auto simp: txn_step_def put_db_def Let_def split: option.splits)

lemma client_query_txn_step:
  assumes "s \<noteq> Begin" "s \<noteq> Commit" "s \<noteq> Rollback"
  shows "txn_step w (snd (client_query E s w))"
proof -
  have a: "txn_step w (emit (Stmt s) (w\<lparr>clock := clock w + 1\<rparr>))"
    using assms by (cases s) (simp_all add: txn_step_def emit_def)
  show ?thesis
    using a txn_step_trans [OF a exec_stmt_txn_step [OF assms]]
    by (simp add: client_query_eq del: exec_stmt.simps split: option.splits)
qed

lemma uow_resolve: "unit_of_work (resolve x)"
  by (simp add: unit_of_work_def resolve_def txn_step_refl)

lemma uow_reject: "unit_of_work (reject e)"
  by (simp add: unit_of_work_def reject_def txn_step_refl)

lemma uow_logger: "unit_of_work (logger l msg meta)"
  by (simp add: unit_of_work_def logger_def txn_step_emit)

lemma uow_andThen:
  assumes "unit_of_work m" and "\<And>x. unit_of_work (f x)"
  shows "unit_of_work (andThen m f)"
  unfolding unit_of_work_def
proof
  fix w
  obtain r w' where m: "m w = (r, w')" by (cases "m w")
  have s1: "txn_step w w'" using assms(1) m by (metis unit_of_work_def snd_conv)
  show "txn_step w (snd (andThen m f w))"
  proof (cases r)
    case (Inl e)
    with m s1 show ?thesis by (simp add: andThen_def)
  next
    case (Inr x)
    have "txn_step w' (snd (f x w'))" using assms(2) by (simp add: unit_of_work_def)
    with m Inr s1 show ?thesis by (simp add: andThen_def) (rule txn_step_trans)
  qed
qed

lemma uow_tryCatch:
  assumes "unit_of_work m" and "\<And>e. unit_of_work (h e)"
  shows "unit_of_work (tryCatch m h)"
  unfolding unit_of_work_def
proof
  fix w
  obtain r w' where m: "m w = (r, w')" by (cases "m w")
  have s1: "txn_step w w'" using assms(1) m by (metis unit_of_work_def snd_conv)
  show "txn_step w (snd (tryCatch m h w))"
  proof (cases r)
    case (Inr x)
    with m s1 show ?thesis by (simp add: tryCatch_def)
  next
    case (Inl e)
    have "txn_step w' (snd (h e w'))" using assms(2) by (simp add: unit_of_work_def)
    with m Inl s1 show ?thesis by (simp add: tryCatch_def) (rule txn_step_trans)
  qed
qed

lemma uow_client_query:
  "s \<noteq> Begin \<Longrightarrow> s \<noteq> Commit \<Longrightarrow> s \<noteq> Rollback \<Longrightarrow> unit_of_work (client_query E s)"
  by (simp add: unit_of_work_def client_query_txn_step)

lemma uow_sendEmail: "unit_of_work (sendEmail E n)"
  unfolding sendEmail_def
  by (intro uow_andThen uow_logger)
     (simp add: unit_of_work_def txn_step_refl txn_step_emit split: option.splits)

lemma uow_fetchUserEmail: "unit_of_work (fetchUserEmail E uid)"
  by (simp add: fetchUserEmail_def uow_resolve uow_reject split: option.splits)

lemma uow_sendOrderConfirmation: "unit_of_work (sendOrderConfirmation E i u)"
  unfolding sendOrderConfirmation_def
  by (intro uow_tryCatch uow_andThen uow_fetchUserEmail uow_sendEmail uow_reject)

lemma uow_insertItems: "unit_of_work (insertItems E i its)"
  by (induction its) (simp_all add: uow_resolve uow_andThen uow_client_query)

lemma uow_createOrder_callback: "unit_of_work (createOrder_callback E input)"
  unfolding createOrder_callback_def Let_def
  apply (intro uow_andThen uow_client_query)
     apply simp_all
  apply (simp split: option.splits)
  apply (intro conjI allI impI uow_reject uow_andThen uow_logger uow_insertItems uow_tryCatch uow_sendOrderConfirmation uow_resolve)
  done


lemma rollback_rethrow_eq:
  "rollback_rethrow E e w =
     ((case db_fault E (clock w) of Some e' \<Rightarrow> Inl e' | None \<Rightarrow> Inl e),
      client_release (snd (client_query E Rollback w)))"
  by (simp add: rollback_rethrow_def client_query_eq split: option.splits)

lemma client_query_Rollback_committed:
  "committed (snd (client_query E Rollback w)) = committed w"
  by (simp add: client_query_eq emit_def split: option.splits)


lemma client_release_simps:
  "trace (client_release w) = trace w @ [Release]"
  "committed (client_release w) = committed w"
  "in_use (client_release w) = in_use w - 1"
  "txn (client_release w) = txn w"
  by (simp_all add: client_release_def emit_def)

lemma connected_simps:
  "trace (connected w) = trace w @ [Acquire]"
  "committed (connected w) = committed w"
  "in_use (connected w) = Suc (in_use w)"
  "clock (connected w) = Suc (clock w)"
  "txn (connected w) = txn w"
  "order_seq (connected w) = order_seq w"
  "item_seq (connected w) = item_seq w"
  by (simp_all add: connected_def emit_def)


lemma new_events_append: "trace w' = trace w @ evs \<Longrightarrow> new_events w w' = evs"
  by (simp add: new_events_def)

lemma uow_D:
  assumes "unit_of_work cb" and "cb w = (r, w')"
  shows "in_use w' = in_use w"
    and "txn w \<noteq> None \<Longrightarrow> committed w' = committed w"
    and "\<exists>evs. trace w' = trace w @ evs \<and> list_all (\<lambda>ev. \<not> is_ctl ev) evs"
  using assms unfolding unit_of_work_def txn_step_def by (metis snd_conv)+



lemma rollback_rethrow_trace:
  "trace (snd (rollback_rethrow E e w)) = trace w @ [Stmt Rollback, Release]"
  by (simp add: rollback_rethrow_eq client_release_simps client_query_trace)

lemma rollback_rethrow_in_use:
  "in_use (snd (rollback_rethrow E e w)) = in_use w - 1"
  by (simp add: rollback_rethrow_eq client_release_simps client_query_in_use)

lemma executeTransaction_trace:
  assumes uow: "unit_of_work cb"
  shows "case db_fault E (clock w) of
           Some e \<Rightarrow> trace (snd (executeTransaction E cb w)) = trace w
         | None \<Rightarrow>
             (\<exists>evs tl. list_all (\<lambda>ev. \<not> is_ctl ev) evs
                \<and> (tl = [Stmt Rollback] \<or> tl = [Stmt Commit] \<or> tl = [Stmt Commit, Stmt Rollback])
                \<and> trace (snd (executeTransaction E cb w)) =
                    trace w @ [Acquire, Stmt Begin] @ evs @ tl @ [Release])"
proof (cases "db_fault E (clock w)")
  case (Some e)
  then show ?thesis
    by (simp add: executeTransaction_unfold)
next
  case None
  obtain rb w2 where b: "client_query E Begin (connected w) = (rb, w2)"
    by (cases "client_query E Begin (connected w)")
  have t2: "trace w2 = trace w @ [Acquire, Stmt Begin]"
    using client_query_trace [of E Begin "connected w"] b by (simp add: connected_simps)
  show ?thesis
  proof (cases rb)
    case (Inl e)
    have "trace (snd (executeTransaction E cb w)) =
            trace w @ [Acquire, Stmt Begin] @ [] @ [Stmt Rollback] @ [Release]"
      using None b Inl
      by (simp add: executeTransaction_unfold rollback_rethrow_trace t2)
    with None show ?thesis
      by (simp only: option.simps) (metis list.pred_inject(1))
  next
    case (Inr x)
    obtain rc w3 where c: "cb w2 = (rc, w3)" by (cases "cb w2")
    obtain evs where t3: "trace w3 = trace w2 @ evs" and nc: "list_all (\<lambda>ev. \<not> is_ctl ev) evs"
      using uow_D(3) [OF uow c] by blast
    show ?thesis
    proof (cases rc)
      case failed: (Inl e)
      have "trace (snd (executeTransaction E cb w)) =
              trace w @ [Acquire, Stmt Begin] @ evs @ [Stmt Rollback] @ [Release]"
        using None b Inr c failed
        by (simp add: executeTransaction_unfold rollback_rethrow_trace t2 t3)
      with None nc show ?thesis
        by (simp only: option.simps) metis
    next
      case worked: (Inr y)
      obtain rd w4 where d: "client_query E Commit w3 = (rd, w4)"
        by (cases "client_query E Commit w3")
      have t4: "trace w4 = trace w3 @ [Stmt Commit]"
        using client_query_trace [of E Commit w3] d by simp
      show ?thesis
      proof (cases rd)
        case (Inl e)
        have "trace (snd (executeTransaction E cb w)) =
                trace w @ [Acquire, Stmt Begin] @ evs @ [Stmt Commit, Stmt Rollback] @ [Release]"
          using None b Inr c worked d Inl
          by (simp add: executeTransaction_unfold rollback_rethrow_trace t2 t3 t4)
        with None nc show ?thesis
          by (simp only: option.simps) metis
      next
        case through: (Inr z)
        have "trace (snd (executeTransaction E cb w)) =
                trace w @ [Acquire, Stmt Begin] @ evs @ [Stmt Commit] @ [Release]"
          using None b Inr c worked d through
          by (simp add: executeTransaction_unfold client_release_simps t2 t3 t4)
        with None nc show ?thesis
          by (simp only: option.simps) metis
      qed
    qed
  qed
qed

lemma executeTransaction_in_use:
  assumes uow: "unit_of_work cb"
  shows "in_use (snd (executeTransaction E cb w)) = in_use w"
proof (cases "db_fault E (clock w)")
  case (Some e)
  then show ?thesis by (simp add: executeTransaction_unfold)
next
  case None
  obtain rb w2 where b: "client_query E Begin (connected w) = (rb, w2)"
    by (cases "client_query E Begin (connected w)")
  have i2: "in_use w2 = Suc (in_use w)"
    using client_query_in_use [of E Begin "connected w"] b by (simp add: connected_simps)
  obtain rc w3 where c: "cb w2 = (rc, w3)" by (cases "cb w2")
  have i3: "in_use w3 = Suc (in_use w)"
    using uow_D(1) [OF uow c] i2 by simp
  obtain rd w4 where d: "client_query E Commit w3 = (rd, w4)"
    by (cases "client_query E Commit w3")
  have i4: "in_use w4 = Suc (in_use w)"
    using client_query_in_use [of E Commit w3] d i3 by simp
  show ?thesis
    using None b c d i2 i3 i4
    by (simp add: executeTransaction_unfold rollback_rethrow_in_use client_release_simps
          split: sum.splits)
qed








lemma createOrder_eq:
  "createOrder E input w =
     executeTransaction E (createOrder_callback E input)
       (emit (Log Info ''Creating new order''
                [(''userId'', Num (userId input)),
                 (''itemCount'', Num (int (length (items input))))]) w)"
  by (simp add: createOrder_def andThen_def logger_def)


lemma no_ctl_no_pool_events:
  "list_all (\<lambda>ev. \<not> is_ctl ev) evs \<Longrightarrow> filter (\<lambda>ev. ev = Acquire \<or> ev = Release) evs = []"
  by (induction evs) auto

text \<open>
  C2. Every execution of \<^verbatim>\<open>executeTransaction\<close> on a unit of work gives the client back:
  the number of clients checked out is afterwards what it was before, whatever fails.
  When the connect itself fails nothing was taken and nothing happens; otherwise the
  call takes the client once and releases it once, and the release is the last thing it
  does, on the commit path, on the rollback path, and when \<^verbatim>\<open>COMMIT\<close> or \<^verbatim>\<open>ROLLBACK\<close>
  fails.
\<close>

theorem connection_released_on_every_exit_path:
  assumes "unit_of_work callback"
  shows "in_use (snd (executeTransaction E callback w)) = in_use w
       \<and> (case db_fault E (clock w) of
            Some e \<Rightarrow> new_events w (snd (executeTransaction E callback w)) = []
          | None \<Rightarrow>
              filter (\<lambda>ev. ev = Acquire \<or> ev = Release)
                (new_events w (snd (executeTransaction E callback w))) = [Acquire, Release]
              \<and> last (new_events w (snd (executeTransaction E callback w))) = Release)"
proof (cases "db_fault E (clock w)")
  case (Some e)
  with executeTransaction_trace [OF assms, where E = E and w = w]
    executeTransaction_in_use [OF assms]
  show ?thesis by (simp add: new_events_def)
next
  case None
  with executeTransaction_trace [OF assms, where E = E and w = w]
  obtain evs tl where nc: "list_all (\<lambda>ev. \<not> is_ctl ev) evs"
    and tl: "tl = [Stmt Rollback] \<or> tl = [Stmt Commit] \<or> tl = [Stmt Commit, Stmt Rollback]"
    and tr: "trace (snd (executeTransaction E callback w)) =
               trace w @ [Acquire, Stmt Begin] @ evs @ tl @ [Release]"
    by auto
  have "filter (\<lambda>ev. ev = Acquire \<or> ev = Release) tl = []"
    using tl by auto
  with None new_events_append [OF tr] no_ctl_no_pool_events [OF nc]
    executeTransaction_in_use [OF assms]
  show ?thesis by simp
qed

theorem connection_released_on_every_exit_path_witness:
  "in_use (snd (executeTransaction
                  (db_faults [(5, Error ''commit failed''), (6, Error ''rollback failed'')])
                  (createOrder_callback
                     (db_faults [(5, Error ''commit failed''), (6, Error ''rollback failed'')])
                     two_items)
                  empty_shop)) = 0
   \<and> last (new_events empty_shop
             (snd (executeTransaction
                     (db_faults [(5, Error ''commit failed''), (6, Error ''rollback failed'')])
                     (createOrder_callback
                        (db_faults [(5, Error ''commit failed''), (6, Error ''rollback failed'')])
                        two_items)
                     empty_shop))) = Release"
  using connection_released_on_every_exit_path
          [OF uow_createOrder_callback
                [of "db_faults [(5, Error ''commit failed''), (6, Error ''rollback failed'')]"
                    two_items],
           where E = "db_faults [(5, Error ''commit failed''), (6, Error ''rollback failed'')]"
             and w = empty_shop]
  by (simp add: db_faults_def no_faults_def empty_shop_def)

subsection \<open>Creating an order\<close>

lemma confirmation_step:
  "tryCatch (sendOrderConfirmation E i u)
     (\<lambda>error. logger Failure ''Failed to send order confirmation''
                 [(''orderId'', Num i), (''error'', Err error)]) w
   = (Inr (), w\<lparr>trace := trace w @ confirmation_events E i u\<rparr>)"
  by (simp add: sendOrderConfirmation_def fetchUserEmail_def sendEmail_eq io_defs emit_def
        confirmation_events_def confirmation_email_def Let_def split: option.splits)

lemma client_query_item:
  assumes "db_fault E (clock w) = None" and "txn w = Some d"
  shows "client_query E (InsertOrderItem i p q c) w =
           (Inr \<lparr>rows = [], rowCount = 1\<rparr>,
            w\<lparr>clock := clock w + 1,
              txn := Some (d\<lparr>order_items := order_items d @
                             [\<lparr>item_id = item_seq w, order_id = i, product_id = p,
                               item_quantity = q, item_price = c\<rparr>]\<rparr>),
              item_seq := item_seq w + 1,
              trace := trace w @ [Stmt (InsertOrderItem i p q c)]\<rparr>)"
  using assms
  by (simp add: client_query_eq emit_def cur_db_def put_db_def Let_def)

lemma insertItems_ok:
  assumes "\<forall>j<length its. db_fault E (clock w + j) = None" and "txn w = Some d"
  shows "insertItems E i its w =
           (Inr (),
            w\<lparr>clock := clock w + length its,
              txn := Some (d\<lparr>order_items := order_items d @ item_rows i (item_seq w) its\<rparr>),
              item_seq := item_seq w + int (length its),
              trace := trace w @ item_stmts i its\<rparr>)"
  using assms
proof (induction its arbitrary: w d)
  case Nil
  then show ?case by (simp add: resolve_def item_stmts_def)
next
  case (Cons item rest)
  let ?w1 = "w\<lparr>clock := clock w + 1,
              txn := Some (d\<lparr>order_items := order_items d @
                             [\<lparr>item_id = item_seq w, order_id = i, product_id = productId item,
                               item_quantity = quantity item, item_price = price item\<rparr>]\<rparr>),
              item_seq := item_seq w + 1,
              trace := trace w @ [Stmt (InsertOrderItem i (productId item) (quantity item) (price item))]\<rparr>"
  have f0: "db_fault E (clock w) = None" using Cons.prems(1) by force
  have q: "client_query E (InsertOrderItem i (productId item) (quantity item) (price item)) w
             = (Inr \<lparr>rows = [], rowCount = 1\<rparr>, ?w1)"
    by (rule client_query_item [OF f0 Cons.prems(2)])
  have "\<forall>j<length rest. db_fault E (clock ?w1 + j) = None"
  proof (intro allI impI)
    fix j assume "j < length rest"
    then have "Suc j < length (item # rest)" by simp
    then have "db_fault E (clock w + Suc j) = None" using Cons.prems(1) by blast
    then show "db_fault E (clock ?w1 + j) = None" by simp
  qed
  from Cons.IH [OF this, of "d\<lparr>order_items := order_items d @
                             [\<lparr>item_id = item_seq w, order_id = i, product_id = productId item,
                               item_quantity = quantity item, item_price = price item\<rparr>]\<rparr>"]
  show ?case
    by (simp add: andThen_def q item_stmts_def)
qed

lemma client_query_order:
  assumes "db_fault E (clock w) = None" and "txn w = Some d"
  shows "client_query E (InsertOrder u s t) w =
           (Inr \<lparr>rows = [\<lparr>ord_id = order_seq w, user_id = u, status = s, total_amount = t,
                           created_at = clock w + 1, updated_at = clock w + 1, paid_at = None\<rparr>],
                 rowCount = 1\<rparr>,
            w\<lparr>clock := clock w + 1,
              txn := Some (d\<lparr>orders := orders d @
                             [\<lparr>ord_id = order_seq w, user_id = u, status = s, total_amount = t,
                               created_at = clock w + 1, updated_at = clock w + 1,
                               paid_at = None\<rparr>]\<rparr>),
              order_seq := order_seq w + 1,
              trace := trace w @ [Stmt (InsertOrder u s t)]\<rparr>)"
  using assms
  by (simp add: client_query_eq emit_def cur_db_def put_db_def Let_def)

lemma createOrder_callback_ok:
  assumes t: "txn w = Some d"
    and ok: "\<forall>j\<le>length (items input). db_fault E (clock w + j) = None"
  shows "createOrder_callback E input w =
           (Inr (new_order input (order_seq w) (clock w + 1)),
            w\<lparr>clock := clock w + 1 + length (items input),
              txn := Some (d\<lparr>orders := orders d @ [new_order input (order_seq w) (clock w + 1)],
                            order_items := order_items d @
                               item_rows (order_seq w) (item_seq w) (items input)\<rparr>),
              order_seq := order_seq w + 1,
              item_seq := item_seq w + int (length (items input)),
              trace := trace w @ callback_events E input (order_seq w)\<rparr>)"
proof -
  let ?total = "order_total (items input)"
  let ?ord = "new_order input (order_seq w) (clock w + 1)"
  let ?d1 = "d\<lparr>orders := orders d @ [?ord]\<rparr>"
  let ?w1 = "w\<lparr>clock := clock w + 1, txn := Some ?d1, order_seq := order_seq w + 1,
               trace := trace w @ [Stmt (InsertOrder (userId input) ''pending'' ?total)]\<rparr>"
  let ?w2 = "emit (Log Info ''Order created'' [(''orderId'', Num (order_seq w))]) ?w1"
  have f0: "db_fault E (clock w) = None" using ok by force
  have q1: "client_query E (InsertOrder (userId input) ''pending'' ?total) w
              = (Inr \<lparr>rows = [?ord], rowCount = 1\<rparr>, ?w1)"
    using client_query_order [OF f0 t, of "userId input" "''pending''" ?total]
    by (simp add: new_order_def)
  have "\<forall>j<length (items input). db_fault E (clock ?w2 + j) = None"
  proof (intro allI impI)
    fix j assume "j < length (items input)"
    then have "Suc j \<le> length (items input)" by simp
    then have "db_fault E (clock w + Suc j) = None" using ok by blast
    then show "db_fault E (clock ?w2 + j) = None" by (simp add: emit_def)
  qed
  moreover have "txn ?w2 = Some ?d1" by (simp add: emit_def)
  ultimately have q2: "insertItems E (order_seq w) (items input) ?w2 =
           (Inr (),
            ?w2\<lparr>clock := clock ?w2 + length (items input),
              txn := Some (?d1\<lparr>order_items := order_items ?d1 @ item_rows (order_seq w) (item_seq ?w2) (items input)\<rparr>),
              item_seq := item_seq ?w2 + int (length (items input)),
              trace := trace ?w2 @ item_stmts (order_seq w) (items input)\<rparr>)"
    by (rule insertItems_ok)
  show ?thesis
    using q1 q2
    by (simp add: createOrder_callback_def Let_def order_total_def andThen_def logger_def
          first_row_def confirmation_step resolve_def emit_def callback_events_def new_order_def)
qed

lemma client_query_begin:
  assumes "db_fault E (clock w) = None"
  shows "client_query E Begin w =
           (Inr \<lparr>rows = [], rowCount = 0\<rparr>,
            w\<lparr>clock := clock w + 1, txn := Some (cur_db w), trace := trace w @ [Stmt Begin]\<rparr>)"
  using assms by (simp add: client_query_eq emit_def cur_db_def split: option.splits)

lemma client_query_commit:
  assumes "db_fault E (clock w) = None"
  shows "client_query E Commit w =
           (Inr \<lparr>rows = [], rowCount = 0\<rparr>,
            w\<lparr>clock := clock w + 1, committed := cur_db w, txn := None,
              trace := trace w @ [Stmt Commit]\<rparr>)"
  using assms by (simp add: client_query_eq emit_def cur_db_def split: option.splits)

lemma createOrder_reaches_commit:
  assumes ok: "\<forall>t<3 + length (items input). db_fault E (clock w + t) = None"
  shows "createOrder E input w =
           (case client_query E Commit (ready_to_commit E input w) of
              (Inl e, w4) \<Rightarrow> rollback_rethrow E e w4
            | (Inr _, w4) \<Rightarrow> (Inr (created_order input w), client_release w4))"
proof -
  let ?n = "length (items input)"
  let ?w0 = "emit (Log Info ''Creating new order''
                [(''userId'', Num (userId input)), (''itemCount'', Num (int ?n))]) w"
  let ?w1 = "connected ?w0"
  let ?w2 = "?w1\<lparr>clock := clock ?w1 + 1, txn := Some (cur_db ?w1),
                 trace := trace ?w1 @ [Stmt Begin]\<rparr>"
  let ?d = "cur_db w"
  let ?ord = "new_order input (order_seq ?w2) (clock ?w2 + 1)"
  let ?w3 = "?w2\<lparr>clock := clock ?w2 + 1 + ?n,
              txn := Some (?d\<lparr>orders := orders ?d @ [?ord],
                            order_items := order_items ?d @
                               item_rows (order_seq ?w2) (item_seq ?w2) (items input)\<rparr>),
              order_seq := order_seq ?w2 + 1,
              item_seq := item_seq ?w2 + int ?n,
              trace := trace ?w2 @ callback_events E input (order_seq ?w2)\<rparr>"
  have f0: "db_fault E (clock ?w0) = None"
    using ok [rule_format, of 0] by (simp add: emit_def)
  have f1: "db_fault E (clock ?w1) = None"
    using ok [rule_format, of 1] by (simp add: emit_def connected_def)
  have q1: "client_query E Begin ?w1 = (Inr \<lparr>rows = [], rowCount = 0\<rparr>, ?w2)"
    by (rule client_query_begin [OF f1])
  have t2: "txn ?w2 = Some ?d"
    by (simp add: cur_db_simps)
  have "\<forall>j\<le>?n. db_fault E (clock ?w2 + j) = None"
  proof (intro allI impI)
    fix j assume "j \<le> ?n"
    then have "2 + j < 3 + ?n" by simp
    then have "db_fault E (clock w + (2 + j)) = None" using ok by blast
    moreover have "clock ?w2 + j = clock w + (2 + j)" by (simp add: emit_def connected_def)
    ultimately show "db_fault E (clock ?w2 + j) = None" by (simp only:)
  qed
  then have q2: "createOrder_callback E input ?w2 = (Inr ?ord, ?w3)"
    by (rule createOrder_callback_ok [OF t2])
  have e3: "?w3 = ready_to_commit E input w"
    by (simp add: ready_to_commit_def emit_def connected_def created_order_def
          created_items_def eval_nat_numeral)
  have o3: "?ord = created_order input w"
    by (simp add: created_order_def emit_def connected_def eval_nat_numeral)
  have run: "executeTransaction E (createOrder_callback E input) ?w0 =
          (case client_query E Commit ?w3 of
             (Inl e, w4) \<Rightarrow> rollback_rethrow E e w4
           | (Inr _, w4) \<Rightarrow> (Inr ?ord, client_release w4))"
    using f0 by (simp only: executeTransaction_unfold q1 q2 option.simps prod.simps sum.simps)
  show ?thesis
    by (simp only: createOrder_eq run e3 [symmetric] o3 [symmetric])
qed

lemma ready_to_commit_simps:
  "clock (ready_to_commit E input w) = clock w + 3 + length (items input)"
  "cur_db (ready_to_commit E input w) =
     (cur_db w)\<lparr>orders := orders (cur_db w) @ [created_order input w],
                order_items := order_items (cur_db w) @ created_items input w\<rparr>"
  "committed (ready_to_commit E input w) = committed w"
  "in_use (ready_to_commit E input w) = Suc (in_use w)"
  "trace (ready_to_commit E input w) =
     trace w @ [Log Info ''Creating new order''
                  [(''userId'', Num (userId input)),
                   (''itemCount'', Num (int (length (items input))))],
                Acquire, Stmt Begin] @ callback_events E input (order_seq w)"
  by (simp_all add: ready_to_commit_def cur_db_def)

lemma createOrder_ok:
  assumes ok: "\<forall>t\<le>3 + length (items input). db_fault E (clock w + t) = None"
  shows "fst (createOrder E input w) = Inr (created_order input w)"
    and "committed (snd (createOrder E input w)) =
           (cur_db w)\<lparr>orders := orders (cur_db w) @ [created_order input w],
                      order_items := order_items (cur_db w) @ created_items input w\<rparr>"
    and "trace (snd (createOrder E input w)) =
           trace w @ [Log Info ''Creating new order''
                        [(''userId'', Num (userId input)),
                         (''itemCount'', Num (int (length (items input))))],
                      Acquire, Stmt Begin]
                   @ callback_events E input (order_seq w) @ [Stmt Commit, Release]"
proof -
  have "\<forall>t<3 + length (items input). db_fault E (clock w + t) = None"
    using ok by simp
  note R = createOrder_reaches_commit [OF this]
  have "db_fault E (clock (ready_to_commit E input w)) = None"
    using ok [rule_format, of "3 + length (items input)"]
    by (simp add: ready_to_commit_simps add.assoc)
  note C = client_query_commit [OF this]
  show "fst (createOrder E input w) = Inr (created_order input w)"
    by (simp add: R C)
  show "committed (snd (createOrder E input w)) =
           (cur_db w)\<lparr>orders := orders (cur_db w) @ [created_order input w],
                      order_items := order_items (cur_db w) @ created_items input w\<rparr>"
    by (simp add: R C client_release_simps ready_to_commit_simps)
  show "trace (snd (createOrder E input w)) =
           trace w @ [Log Info ''Creating new order''
                        [(''userId'', Num (userId input)),
                         (''itemCount'', Num (int (length (items input))))],
                      Acquire, Stmt Begin]
                   @ callback_events E input (order_seq w) @ [Stmt Commit, Release]"
    by (simp add: R C client_release_simps ready_to_commit_simps)
qed

lemma createOrder_commit_fails:
  assumes ok: "\<forall>t<3 + length (items input). db_fault E (clock w + t) = None"
    and bad: "db_fault E (clock w + 3 + length (items input)) = Some e"
  shows "\<exists>e'. fst (createOrder E input w) = Inl e'"
    and "committed (snd (createOrder E input w)) = committed w"
    and "trace (snd (createOrder E input w)) =
           trace w @ [Log Info ''Creating new order''
                        [(''userId'', Num (userId input)),
                         (''itemCount'', Num (int (length (items input))))],
                      Acquire, Stmt Begin]
                   @ callback_events E input (order_seq w)
                   @ [Stmt Commit, Stmt Rollback, Release]"
proof -
  note R = createOrder_reaches_commit [OF ok]
  have f: "db_fault E (clock (ready_to_commit E input w)) = Some e"
    using bad by (simp add: ready_to_commit_simps)
  have C: "client_query E Commit (ready_to_commit E input w) =
             (Inl e, emit (Stmt Commit)
                       ((ready_to_commit E input w)
                          \<lparr>clock := clock (ready_to_commit E input w) + 1\<rparr>))"
    using f by (simp add: client_query_eq)
  show "\<exists>e'. fst (createOrder E input w) = Inl e'"
    by (simp add: R C rollback_rethrow_eq split: option.splits)
  show "committed (snd (createOrder E input w)) = committed w"
    by (simp add: R C rollback_rethrow_eq client_release_simps client_query_Rollback_committed
          emit_simps ready_to_commit_simps)
  show "trace (snd (createOrder E input w)) =
           trace w @ [Log Info ''Creating new order''
                        [(''userId'', Num (userId input)),
                         (''itemCount'', Num (int (length (items input))))],
                      Acquire, Stmt Begin]
                   @ callback_events E input (order_seq w)
                   @ [Stmt Commit, Stmt Rollback, Release]"
    by (simp add: R C rollback_rethrow_trace emit_simps ready_to_commit_simps)
qed

lemma item_rows_fields:
  "map (\<lambda>r. (order_id r, product_id r, item_quantity r, item_price r)) (item_rows i s its)
     = map (\<lambda>item. (i, productId item, quantity item, price item)) its"
  by (induction its arbitrary: s) simp_all

text \<open>
  C7, as stated, fails: the total is added up in doubles. For one unit at \<open>2 ^ 53\<close> and
  one unit at 1, with nothing failing, the Order row carries the total
  9007199254740992, while the sum over the items of unit price times quantity is
  9007199254740993.
\<close>

theorem createOrder_total_is_rounded:
  "fst (createOrder no_faults big_prices empty_shop)
     = Inr \<lparr>ord_id = 1, user_id = 7, status = ''pending'',
            total_amount = Fin 9007199254740992,
            created_at = 3, updated_at = 3, paid_at = None\<rparr>
   \<and> exact_total (items big_prices) = 9007199254740993"
proof -
  have h: "\<forall>t\<le>3 + length (items big_prices). db_fault no_faults (clock empty_shop + t) = None"
    by (simp add: no_faults_def)
  show ?thesis
    unfolding createOrder_ok(1) [OF h] exact_total_big_prices
    by (simp add: created_order_def new_order_def order_total_big_prices)
       (simp add: big_prices_def empty_shop_def)
qed

text \<open>
  C7, amended. When no round trip of the call fails, \<^verbatim>\<open>createOrder\<close> resolves with the
  Order row it inserted: status \<^verbatim>\<open>pending\<close> and the total that results from adding up,
  from the left and in the arithmetic of doubles, the products of unit price and
  quantity. That total is the sum over the items of unit price times quantity whenever
  all prices and quantities are whole numbers that are not negative and the sum is at
  most \<open>2 ^ 53\<close>. After the call the committed orders are those that the client saw
  before (\<open>cur_db w\<close>: the committed ones, unless an earlier call left a transaction open
  on the client) followed by that row, and the committed order items are those from
  before followed by one row per input item, each carrying the new order's id and the
  item's product, quantity and price. (The list of items may also be empty.)
\<close>

theorem createOrder_total_and_rows:
  assumes "\<forall>t\<le>3 + length (items input). db_fault E (clock w + t) = None"
  shows "fst (createOrder E input w) = Inr (created_order input w)
       \<and> status (created_order input w) = ''pending''
       \<and> total_amount (created_order input w) = order_total (items input)
       \<and> ((\<forall>item \<in> set (items input). whole (price item) \<and> whole (quantity item))
            \<and> exact_total (items input) \<le> 2 ^ 53 \<longrightarrow>
              total_amount (created_order input w) = Fin (exact_total (items input)))
       \<and> orders (committed (snd (createOrder E input w)))
           = orders (cur_db w) @ [created_order input w]
       \<and> order_items (committed (snd (createOrder E input w)))
           = order_items (cur_db w) @ created_items input w
       \<and> map (\<lambda>r. (order_id r, product_id r, item_quantity r, item_price r))
             (created_items input w)
           = map (\<lambda>item. (ord_id (created_order input w), productId item, quantity item,
                           price item)) (items input)"
  using createOrder_ok(1,2) [OF assms] order_total_exact [of "items input"]
  by (simp add: created_order_def new_order_def created_items_def item_rows_fields)

theorem createOrder_total_and_rows_witness:
  "fst (createOrder no_faults two_items empty_shop)
     = Inr \<lparr>ord_id = 1, user_id = 7, status = ''pending'', total_amount = Fin 35,
            created_at = 3, updated_at = 3, paid_at = None\<rparr>
   \<and> exact_total (items two_items) = 35
   \<and> total_amount (created_order two_items empty_shop) = Fin 35
   \<and> orders (committed (snd (createOrder no_faults two_items empty_shop)))
       = [\<lparr>ord_id = 1, user_id = 7, status = ''pending'', total_amount = Fin 35,
           created_at = 3, updated_at = 3, paid_at = None\<rparr>]
   \<and> map (\<lambda>r. (order_id r, product_id r, item_quantity r, item_price r))
         (order_items (committed (snd (createOrder no_faults two_items empty_shop))))
       = [(1, 1, Fin 2, Fin 10), (1, 2, Fin 3, Fin 5)]"
proof -
  have h: "\<forall>t\<le>3 + length (items two_items). db_fault no_faults (clock empty_shop + t) = None"
    by (simp add: no_faults_def)
  have i: "\<forall>item \<in> set (items two_items). whole (price item) \<and> whole (quantity item)"
    by (simp add: two_items_def whole_def)
  have e: "exact_total (items two_items) = 35"
    by (simp add: exact_total_def two_items_def value_of_def)
  show ?thesis
    using createOrder_total_and_rows [OF h] i e
    by (simp add: created_order_def new_order_def cur_db_def)
       (simp add: two_items_def empty_shop_def)
qed




lemma createOrder_outcome:
  assumes inserts: "\<forall>t<3 + length (items input). db_fault E (clock w + t) = None"
  shows "fst (createOrder E input w) =
           (case db_fault E (clock w + 3 + length (items input)) of
              None \<Rightarrow> Inr (created_order input w)
            | Some e \<Rightarrow>
               (case db_fault E (clock w + 4 + length (items input)) of
                  None \<Rightarrow> Inl e
                | Some e' \<Rightarrow> Inl e'))"
proof -
  note R = createOrder_reaches_commit [OF inserts]
  have c: "clock w + 4 + length (items input) = Suc (clock w + 3 + length (items input))"
    by simp
  show ?thesis
    unfolding R c
    by (simp add: client_query_eq rollback_rethrow_eq ready_to_commit_simps emit_simps
          del: exec_stmt.simps split: option.splits)
qed




subsection \<open>Rollback of a failed unit of work\<close>









subsection \<open>When the order confirmation is dispatched\<close>

text \<open>
  C4 does not hold of the code. \<^verbatim>\<open>createOrder\<close> awaits \<^verbatim>\<open>sendOrderConfirmation\<close> inside
  the callback that it passes to \<^verbatim>\<open>executeTransaction\<close>. With nothing failing, the
  events of \<^verbatim>\<open>createOrder\<close> for two items are, in this order: \<^verbatim>\<open>BEGIN\<close>, the three
  inserts, the delivery of the confirmation, and only then \<^verbatim>\<open>COMMIT\<close>; so it is not the
  case that every delivery comes after \<^verbatim>\<open>COMMIT\<close> was sent. And when the round trip of
  \<^verbatim>\<open>COMMIT\<close> fails, the confirmation of order 1 has been delivered although no order is
  committed.
\<close>

theorem confirmation_delivered_before_commit:
  "new_events empty_shop (snd (createOrder no_faults two_items empty_shop)) =
     [Log Info ''Creating new order'' [(''userId'', Num 7), (''itemCount'', Num 2)],
      Acquire, Stmt Begin,
      Stmt (InsertOrder 7 ''pending'' (Fin 35)),
      Log Info ''Order created'' [(''orderId'', Num 1)],
      Stmt (InsertOrderItem 1 1 (Fin 2) (Fin 10)),
      Stmt (InsertOrderItem 1 2 (Fin 3) (Fin 5)),
      Log Info ''Order items added'' [(''orderId'', Num 1), (''itemCount'', Num 2)],
      Log Info ''Sending email''
        [(''to'', Str ''user7@example.com''), (''subject'', Str ''Order Confirmation'')],
      Delivered (confirmation_email 1 7),
      Log Info ''Email sent successfully'' [(''to'', Str ''user7@example.com'')],
      Stmt Commit, Release]
   \<and> \<not> deliveries_after_commit False
          (new_events empty_shop (snd (createOrder no_faults two_items empty_shop)))
   \<and> fst (createOrder (db_faults [(5, Error ''commit failed'')]) two_items empty_shop)
       = Inl (Error ''commit failed'')
   \<and> Delivered (confirmation_email 1 7)
       \<in> set (new_events empty_shop
                 (snd (createOrder (db_faults [(5, Error ''commit failed'')]) two_items
                         empty_shop)))
   \<and> orders (committed (snd (createOrder (db_faults [(5, Error ''commit failed'')]) two_items
                               empty_shop))) = []"
proof -
  let ?E = "db_faults [(5, Error ''commit failed'')]"
  have u: "toString 7 = ''7''"
    by (simp add: toString_def digits.simps)
  have ok: "\<forall>t\<le>3 + length (items two_items). db_fault no_faults (clock empty_shop + t) = None"
    by (simp add: no_faults_def)
  note ev = new_events_append [OF createOrder_ok(3) [OF ok]]
  have t: "new_events empty_shop (snd (createOrder no_faults two_items empty_shop)) =
     [Log Info ''Creating new order'' [(''userId'', Num 7), (''itemCount'', Num 2)],
      Acquire, Stmt Begin,
      Stmt (InsertOrder 7 ''pending'' (Fin 35)),
      Log Info ''Order created'' [(''orderId'', Num 1)],
      Stmt (InsertOrderItem 1 1 (Fin 2) (Fin 10)),
      Stmt (InsertOrderItem 1 2 (Fin 3) (Fin 5)),
      Log Info ''Order items added'' [(''orderId'', Num 1), (''itemCount'', Num 2)],
      Log Info ''Sending email''
        [(''to'', Str ''user7@example.com''), (''subject'', Str ''Order Confirmation'')],
      Delivered (confirmation_email 1 7),
      Log Info ''Email sent successfully'' [(''to'', Str ''user7@example.com'')],
      Stmt Commit, Release]"
    unfolding ev
    by (simp add: callback_events_def order_total_two_items)
       (simp add: item_stmts_def confirmation_events_def Let_def no_faults_def two_items_def
          empty_shop_def u)
  have n: "\<not> deliveries_after_commit False
          (new_events empty_shop (snd (createOrder no_faults two_items empty_shop)))"
    unfolding t by simp
  have h: "\<forall>t<3 + length (items two_items). db_fault ?E (clock empty_shop + t) = None"
    by (simp add: db_faults_def no_faults_def two_items_def empty_shop_def)
  have b: "db_fault ?E (clock empty_shop + 3 + length (items two_items))
             = Some (Error ''commit failed'')"
    by (simp add: db_faults_def no_faults_def two_items_def empty_shop_def)
  have r: "db_fault ?E (clock empty_shop + 4 + length (items two_items)) = None"
    by (simp add: db_faults_def no_faults_def two_items_def empty_shop_def)
  note run = createOrder_commit_fails [OF h b]
  note ev' = new_events_append [OF run(3)]
  have f: "fst (createOrder ?E two_items empty_shop) = Inl (Error ''commit failed'')"
    by (simp add: createOrder_outcome [OF h] b r)
  have d: "Delivered (confirmation_email 1 7)
          \<in> set (new_events empty_shop (snd (createOrder ?E two_items empty_shop)))"
    unfolding ev'
    by (simp add: callback_events_def confirmation_events_def
          Let_def db_faults_def no_faults_def two_items_def empty_shop_def)
  have c: "orders (committed (snd (createOrder ?E two_items empty_shop))) = []"
    unfolding run(2) by (simp add: empty_shop_def)
  from t n f d c show ?thesis by (simp only: simp_thms)
qed

subsection \<open>Bulk notifications\<close>

lemma deliveries_append: "deliveries (xs @ ys) = deliveries xs @ deliveries ys"
  by (induction xs rule: deliveries.induct) simp_all

lemma bulk_task:
  "andThen (fetchUserEmail E uid)
     (\<lambda>user. sendEmail E \<lparr>to_addr = user, subject = subj, body = content, template = None\<rparr>) w
   = (case recipient_outcome E subj content uid of
        Fulfilled \<Rightarrow>
          (Inr (), w\<lparr>trace := trace w @
             [Log Info ''Sending email''
                [(''to'', Str (''user'' @ toString uid @ ''@example.com'')), (''subject'', Str subj)],
              Delivered (bulk_email subj content uid),
              Log Info ''Email sent successfully''
                [(''to'', Str (''user'' @ toString uid @ ''@example.com''))]]\<rparr>)
      | Rejected e \<Rightarrow>
          (Inl e, w\<lparr>trace := trace w @
             (case lookup_fault E uid of
                Some _ \<Rightarrow> []
              | None \<Rightarrow> [Log Info ''Sending email''
                           [(''to'', Str (''user'' @ toString uid @ ''@example.com'')),
                            (''subject'', Str subj)]])\<rparr>))"
  by (simp add: fetchUserEmail_def sendEmail_eq io_defs emit_def recipient_outcome_def
        bulk_email_def split: option.splits)

lemma settle_bulk:
  "\<exists>evs. settle (map (\<lambda>uid. andThen (fetchUserEmail E uid)
                     (\<lambda>user. sendEmail E \<lparr>to_addr = user, subject = subj, body = content,
                                          template = None\<rparr>)) uids) w
          = (map (recipient_outcome E subj content) uids, w\<lparr>trace := trace w @ evs\<rparr>)
        \<and> deliveries evs =
            map (bulk_email subj content)
              (filter (\<lambda>uid. recipient_outcome E subj content uid = Fulfilled) uids)"
proof (induction uids arbitrary: w)
  case Nil
  show ?case by (rule exI [of _ "[]"]) simp
next
  case (Cons uid rest)
  let ?task = "\<lambda>uid. andThen (fetchUserEmail E uid)
                     (\<lambda>user. sendEmail E \<lparr>to_addr = user, subject = subj, body = content,
                                          template = None\<rparr>)"
  obtain r w1 where t: "?task uid w = (r, w1)" by (cases "?task uid w")
  obtain evs where s: "settle (map ?task rest) w1
          = (map (recipient_outcome E subj content) rest, w1\<lparr>trace := trace w1 @ evs\<rparr>)"
    and d: "deliveries evs = map (bulk_email subj content)
              (filter (\<lambda>uid. recipient_outcome E subj content uid = Fulfilled) rest)"
    using Cons.IH [of w1] by blast
  show ?case
  proof (cases "recipient_outcome E subj content uid")
    case Fulfilled
    with t bulk_task [of E uid subj content w]
    have r: "r = Inr ()" and w1: "w1 = w\<lparr>trace := trace w @
             [Log Info ''Sending email''
                [(''to'', Str (''user'' @ toString uid @ ''@example.com'')), (''subject'', Str subj)],
              Delivered (bulk_email subj content uid),
              Log Info ''Email sent successfully''
                [(''to'', Str (''user'' @ toString uid @ ''@example.com''))]]\<rparr>"
      by simp_all
    show ?thesis
      apply (rule exI [of _ "[Log Info ''Sending email''
                [(''to'', Str (''user'' @ toString uid @ ''@example.com'')), (''subject'', Str subj)],
              Delivered (bulk_email subj content uid),
              Log Info ''Email sent successfully''
                [(''to'', Str (''user'' @ toString uid @ ''@example.com''))]] @ evs"])
      using t s d r Fulfilled by (simp add: w1)
  next
    case (Rejected e)
    let ?evs0 = "case lookup_fault E uid of
                Some _ \<Rightarrow> []
              | None \<Rightarrow> [Log Info ''Sending email''
                           [(''to'', Str (''user'' @ toString uid @ ''@example.com'')),
                            (''subject'', Str subj)]]"
    from Rejected t bulk_task [of E uid subj content w]
    have r: "r = Inl e" and w1: "w1 = w\<lparr>trace := trace w @ ?evs0\<rparr>"
      by simp_all
    have d0: "deliveries ?evs0 = []" by (simp split: option.splits)
    show ?thesis
      apply (rule exI [of _ "?evs0 @ evs"])
      using t s d r Rejected d0 by (simp add: w1 deliveries_append)
  qed
qed

lemma count_split:
  "length (filter P xs) + length (filter (\<lambda>x. \<not> P x) xs) = length xs"
  by (induction xs) simp_all

text \<open>
  C9. For every list of recipients \<^verbatim>\<open>sendBulkNotifications\<close> resolves. The outcome of
  each recipient is the one that its own lookup and delivery determine, whatever
  happens to the others; every recipient whose lookup and delivery succeed gets its
  message delivered; and the last thing the call does is to report the number of
  recipients that succeeded and the number that failed, which add up to the number of
  recipients.
\<close>

theorem bulk_notifications_isolated:
  "fst (sendBulkNotifications E userIds subj content w) = Inr ()
   \<and> fst (settle (map (\<lambda>uid. andThen (fetchUserEmail E uid)
                           (\<lambda>user. sendEmail E \<lparr>to_addr = user, subject = subj,
                                                body = content, template = None\<rparr>))
                     userIds) w')
       = map (recipient_outcome E subj content) userIds
   \<and> deliveries (new_events w (snd (sendBulkNotifications E userIds subj content w)))
       = map (bulk_email subj content)
           (filter (\<lambda>uid. recipient_outcome E subj content uid = Fulfilled) userIds)
   \<and> last (trace (snd (sendBulkNotifications E userIds subj content w)))
       = Log Info ''Bulk notifications completed''
           [(''successful'',
             Num (int (length (filter (\<lambda>uid. recipient_outcome E subj content uid = Fulfilled)
                                 userIds)))),
            (''failed'',
             Num (int (length (filter (\<lambda>uid. recipient_outcome E subj content uid \<noteq> Fulfilled)
                                 userIds))))]
   \<and> length (filter (\<lambda>uid. recipient_outcome E subj content uid = Fulfilled) userIds)
       + length (filter (\<lambda>uid. recipient_outcome E subj content uid \<noteq> Fulfilled) userIds)
       = length userIds"
proof -
  let ?w0 = "emit (Log Info ''Sending bulk notifications''
                [(''count'', Num (int (length userIds)))]) w"
  obtain evs where s: "settle (map (\<lambda>uid. andThen (fetchUserEmail E uid)
                     (\<lambda>user. sendEmail E \<lparr>to_addr = user, subject = subj, body = content,
                                          template = None\<rparr>)) userIds) ?w0
          = (map (recipient_outcome E subj content) userIds, ?w0\<lparr>trace := trace ?w0 @ evs\<rparr>)"
    and d: "deliveries evs = map (bulk_email subj content)
              (filter (\<lambda>uid. recipient_outcome E subj content uid = Fulfilled) userIds)"
    using settle_bulk [of E subj content userIds ?w0] by blast
  have R: "sendBulkNotifications E userIds subj content w =
     (Inr (), w\<lparr>trace := trace w @ Log Info ''Sending bulk notifications''
                [(''count'', Num (int (length userIds)))] # evs @
        [Log Info ''Bulk notifications completed''
         [(''successful'', Num (int (length (filter (\<lambda>uid. recipient_outcome E subj content uid = Fulfilled) userIds)))),
          (''failed'', Num (int (length (filter (\<lambda>uid. recipient_outcome E subj content uid \<noteq> Fulfilled) userIds))))]]\<rparr>)"
    using s
    by (simp add: sendBulkNotifications_def andThen_def logger_def allSettled_def Let_def
          emit_def filter_map comp_def)
  obtain evs' where "settle (map (\<lambda>uid. andThen (fetchUserEmail E uid)
                     (\<lambda>user. sendEmail E \<lparr>to_addr = user, subject = subj, body = content,
                                          template = None\<rparr>)) userIds) w'
          = (map (recipient_outcome E subj content) userIds, w'\<lparr>trace := trace w' @ evs'\<rparr>)"
    using settle_bulk [of E subj content userIds w'] by blast
  then show ?thesis
    using d by (simp add: R new_events_def deliveries_append count_split)
qed

theorem bulk_notifications_isolated_witness:
  "fst (sendBulkNotifications directory_gaps [1, 2, 3, 4, 5] ''Sale'' ''Ends today'' empty_shop)
     = Inr ()
   \<and> last (trace (snd (sendBulkNotifications directory_gaps [1, 2, 3, 4, 5] ''Sale''
                         ''Ends today'' empty_shop)))
       = Log Info ''Bulk notifications completed'' [(''successful'', Num 3), (''failed'', Num 2)]
   \<and> deliveries (new_events empty_shop
                    (snd (sendBulkNotifications directory_gaps [1, 2, 3, 4, 5] ''Sale''
                            ''Ends today'' empty_shop)))
       = [bulk_email ''Sale'' ''Ends today'' 1, bulk_email ''Sale'' ''Ends today'' 3,
          bulk_email ''Sale'' ''Ends today'' 5]"
  using bulk_notifications_isolated
          [of directory_gaps "[1, 2, 3, 4, 5]" "''Sale''" "''Ends today''" empty_shop empty_shop]
  by (simp add: recipient_outcome_def directory_gaps_def no_faults_def)

subsection \<open>The cancellation notification is never sent\<close>

lemma executeQuery_trace:
  "\<exists>evs. trace (snd (executeQuery E s w)) = trace w @ evs \<and> deliveries evs = []"
proof (cases "db_fault E (clock w)")
  case (Some e)
  then have "trace (snd (executeQuery E s w)) = trace w @ []"
    by (simp add: executeQuery_eq)
  then show ?thesis by (metis deliveries.simps(1))
next
  case None
  have "trace (snd (executeQuery E s w)) = trace w @ [Acquire, Stmt s, Release]"
    using None client_query_trace [of E s "connected w"]
    by (auto simp: executeQuery_eq client_release_simps connected_simps
          split: prod.splits sum.splits)
  moreover have "deliveries [Acquire, Stmt s, Release] = []" by simp
  ultimately show ?thesis by blast
qed

lemma executeQuery_delete_order:
  assumes "executeQuery E (DeleteOrder i) w = (Inr r, w')"
  shows "\<forall>r \<in> set (orders (cur_db w')). ord_id r \<noteq> i"
proof -
  from assms have c: "db_fault E (clock w) = None"
    by (auto simp: executeQuery_eq split: option.splits)
  with assms have q: "db_fault E (Suc (clock w)) = None"
    by (auto simp: executeQuery_eq client_query_eq connected_simps split: option.splits)
  from assms c q have "w' = client_release (snd (exec_stmt (DeleteOrder i)
                            (emit (Stmt (DeleteOrder i)) ((connected w)\<lparr>clock := clock (connected w) + 1\<rparr>))))"
    by (simp add: executeQuery_eq client_query_eq connected_simps del: exec_stmt.simps)
  then show ?thesis
    by (simp add: client_release_def emit_def connected_def cur_db_def put_db_def Let_def
          split: option.splits)
qed

lemma getOrderById_absent:
  assumes "\<forall>r \<in> set (orders (cur_db w)). ord_id r \<noteq> i"
  shows "fst (getOrderById E i w) \<noteq> Inr (Some ordr)"
proof -
  have "fst (getOrderById E i w) =
          (case fst (executeQuery E (SelectOrder i)
                       (emit (Log Info ''Fetching order'' [(''orderId'', Num i)]) w)) of
             Inl e \<Rightarrow> Inl e
           | Inr r \<Rightarrow> Inr (first_row (rows r)))"
    by (simp add: getOrderById_def io_defs split: prod.splits sum.splits)
  with assms show ?thesis
    by (simp add: executeQuery_fst cur_db_simps emit_simps first_row_def Let_def
          filter_empty_conv split: option.splits)
qed

lemma getOrderById_trace:
  "\<exists>evs. trace (snd (getOrderById E i w)) = trace w @ evs \<and> deliveries evs = []"
proof -
  let ?w0 = "emit (Log Info ''Fetching order'' [(''orderId'', Num i)]) w"
  obtain evs where t: "trace (snd (executeQuery E (SelectOrder i) ?w0)) = trace ?w0 @ evs"
    and d: "deliveries evs = []"
    using executeQuery_trace by blast
  have "snd (getOrderById E i w) = snd (executeQuery E (SelectOrder i) ?w0)"
    by (simp add: getOrderById_def io_defs split: prod.splits sum.splits)
  with t have "trace (snd (getOrderById E i w)) =
                 trace w @ (Log Info ''Fetching order'' [(''orderId'', Num i)] # evs)"
    by (simp add: emit_simps)
  moreover have "deliveries (Log Info ''Fetching order'' [(''orderId'', Num i)] # evs) = []"
    using d by simp
  ultimately show ?thesis by blast
qed

text \<open>
  The run of C5 is no accident of its input: whatever the order id, the state of the
  shop and the failures, \<^verbatim>\<open>cancelOrder\<close> delivers no notification. When both deletes
  succeed the order row is gone before \<^verbatim>\<open>getOrderById\<close> looks for it.
\<close>

lemma cancelOrder_never_delivers:
  "deliveries (new_events w (snd (cancelOrder E i w))) = []"
proof -
  obtain r1 w1 where q1: "executeQuery E (DeleteOrderItems i) w = (r1, w1)"
    by (cases "executeQuery E (DeleteOrderItems i) w")
  obtain evs1 where t1: "trace w1 = trace w @ evs1" and d1: "deliveries evs1 = []"
    using executeQuery_trace [of E "DeleteOrderItems i" w] q1 by auto
  show ?thesis
  proof (cases r1)
    case (Inl e)
    with q1 have "snd (cancelOrder E i w) = w1"
      by (simp add: cancelOrder_def andThen_def)
    with t1 d1 show ?thesis by (simp add: new_events_def)
  next
    case (Inr x1)
    obtain r2 w2 where q2: "executeQuery E (DeleteOrder i) w1 = (r2, w2)"
      by (cases "executeQuery E (DeleteOrder i) w1")
    obtain evs2 where t2: "trace w2 = trace w1 @ evs2" and d2: "deliveries evs2 = []"
      using executeQuery_trace [of E "DeleteOrder i" w1] q2 by auto
    show ?thesis
    proof (cases r2)
      case (Inl e)
      with q1 Inr q2 have "snd (cancelOrder E i w) = w2"
        by (simp add: cancelOrder_def andThen_def)
      with t1 d1 t2 d2 show ?thesis by (simp add: new_events_def deliveries_append)
    next
      case deleted: (Inr x2)
      have gone: "\<forall>r \<in> set (orders (cur_db w2)). ord_id r \<noteq> i"
        using executeQuery_delete_order q2 deleted by blast
      obtain r3 w3 where q3: "getOrderById E i w2 = (r3, w3)"
        by (cases "getOrderById E i w2")
      obtain evs3 where t3: "trace w3 = trace w2 @ evs3" and d3: "deliveries evs3 = []"
        using getOrderById_trace [of E i w2] q3 by auto
      have "r3 \<noteq> Inr (Some ordr)" for ordr
        using getOrderById_absent [OF gone, of E ordr] q3 by simp
      then have "snd (cancelOrder E i w) = w3"
        using q1 Inr q2 deleted q3
        by (cases r3; cases "projr r3")
           (auto simp: cancelOrder_def andThen_def tryCatch_def resolve_def)
      with t1 d1 t2 d2 t3 d3 show ?thesis by (simp add: new_events_def deliveries_append)
    qed
  qed
qed

end
